theory Spec2Isabelle
  imports Complex_Main "HOL-Library.Multiset"
begin

section \<open>JavaScript numbers\<close>

text \<open>
  The program computes with JavaScript numbers. A number is modelled as NaN, one of the
  two infinities (\<open>Infty True\<close> is \<open>+Infinity\<close>), or an exact real: rounding to a double,
  overflow and underflow are idealised away, and \<open>-0\<close> is identified with \<open>0\<close> (the two
  are \<open>===\<close> and print alike through \<open>toFixed\<close>). NaN and the infinities are kept, since
  \<open>parseFloat\<close> produces them and they decide branches of the program.
\<close>

datatype jsnum = NaN | Infty bool | Num real

fun jneg :: "jsnum \<Rightarrow> jsnum" where
  "jneg NaN = NaN"
| "jneg (Infty s) = Infty (\<not> s)"
| "jneg (Num x) = Num (- x)"

fun jadd :: "jsnum \<Rightarrow> jsnum \<Rightarrow> jsnum" where
  "jadd (Num a) (Num b) = Num (a + b)"
| "jadd (Num a) (Infty t) = Infty t"
| "jadd (Infty s) (Num b) = Infty s"
| "jadd (Infty s) (Infty t) = (if s = t then Infty s else NaN)"
| "jadd NaN b = NaN"
| "jadd a NaN = NaN"

definition jsub :: "jsnum \<Rightarrow> jsnum \<Rightarrow> jsnum" where
  "jsub a b = jadd a (jneg b)"

fun jmul :: "jsnum \<Rightarrow> jsnum \<Rightarrow> jsnum" where
  "jmul (Num a) (Num b) = Num (a * b)"
| "jmul (Num a) (Infty t) = (if a = 0 then NaN else Infty (t = (0 < a)))"
| "jmul (Infty s) (Num b) = (if b = 0 then NaN else Infty (s = (0 < b)))"
| "jmul (Infty s) (Infty t) = Infty (s = t)"
| "jmul NaN b = NaN"
| "jmul a NaN = NaN"

text \<open>\<open>a < b\<close> on numbers: false as soon as one side is NaN.\<close>

fun jlt :: "jsnum \<Rightarrow> jsnum \<Rightarrow> bool" where
  "jlt (Num a) (Num b) = (a < b)"
| "jlt (Num a) (Infty t) = t"
| "jlt (Infty s) (Num b) = (\<not> s)"
| "jlt (Infty s) (Infty t) = (\<not> s \<and> t)"
| "jlt NaN b = False"
| "jlt a NaN = False"

definition jgt :: "jsnum \<Rightarrow> jsnum \<Rightarrow> bool" where
  "jgt a b = jlt b a"

text \<open>\<open>a <= b\<close> and \<open>a >= b\<close>: again false with a NaN operand.\<close>

definition jle :: "jsnum \<Rightarrow> jsnum \<Rightarrow> bool" where
  "jle a b = (a \<noteq> NaN \<and> b \<noteq> NaN \<and> \<not> jlt b a)"

definition jge :: "jsnum \<Rightarrow> jsnum \<Rightarrow> bool" where
  "jge a b = jle b a"

text \<open>Truthiness of a number: \<open>0\<close> and NaN are falsy.\<close>

definition truthy_num :: "jsnum \<Rightarrow> bool" where
  "truthy_num v = (v \<noteq> NaN \<and> v \<noteq> Num 0)"

text \<open>
  \<open>parseFloat(x.toFixed(d))\<close>. \<open>toFixed\<close> prints NaN and the infinities by name, prints
  a number of magnitude \<open>10^21\<close> or more in full (so that reading it back gives the number
  itself), and otherwise prints \<open>n / 10^d\<close> for the integer \<open>n\<close> nearest to \<open>|x| * 10^d\<close>,
  the larger one at a tie, with the sign of \<open>x\<close>.
\<close>

definition toFixed :: "nat \<Rightarrow> jsnum \<Rightarrow> jsnum" where
  "toFixed d v =
     (case v of
        NaN \<Rightarrow> NaN
      | Infty s \<Rightarrow> Infty s
      | Num x \<Rightarrow>
          if 10 ^ 21 \<le> \<bar>x\<bar> then Num x
          else Num (sgn x * real_of_int \<lfloor>\<bar>x\<bar> * 10 ^ d + 1 / 2\<rfloor> / 10 ^ d))"

subsection \<open>parseFloat\<close>

text \<open>
  ECMAScript's \<open>parseFloat\<close> on a string: leading white space is dropped, then the
  longest prefix that is a decimal literal (sign, \<open>Infinity\<close>, digits with an optional
  fraction and exponent) is read; NaN when there is none. Characters are ASCII.
\<close>

definition is_space :: "char \<Rightarrow> bool" where
  "is_space c = (c \<in> set [CHR '' '', CHR 0x09, CHR 0x0A, CHR 0x0B, CHR 0x0C, CHR 0x0D])"

definition is_digit :: "char \<Rightarrow> bool" where
  "is_digit c = (c \<in> set ''0123456789'')"

definition digit_val :: "char \<Rightarrow> nat" where
  "digit_val c = (of_char c :: nat) - 48"

definition digits_val :: "string \<Rightarrow> nat" where
  "digits_val ds = foldl (\<lambda>a c. 10 * a + digit_val c) 0 ds"

fun startsWith :: "string \<Rightarrow> string \<Rightarrow> bool" where
  "startsWith s [] = True"
| "startsWith [] (p # ps) = False"
| "startsWith (c # s) (p # ps) = (c = p \<and> startsWith s ps)"

definition scale10 :: "real \<Rightarrow> int \<Rightarrow> real" where
  "scale10 x e = (if 0 \<le> e then x * 10 ^ nat e else x / 10 ^ nat (- e))"

text \<open>The value of the exponent part at the head of the string, \<open>0\<close> when there is none.\<close>

definition exponent_part :: "string \<Rightarrow> int" where
  "exponent_part s =
     (case s of
        [] \<Rightarrow> 0
      | c # r \<Rightarrow>
          if c = CHR ''e'' \<or> c = CHR ''E'' then
            (let neg = startsWith r ''-'';
                 r' = (if startsWith r ''-'' \<or> startsWith r ''+'' then tl r else r);
                 ds = takeWhile is_digit r'
             in if ds = [] then 0
                else if neg then - int (digits_val ds) else int (digits_val ds))
          else 0)"

definition unsigned_literal :: "string \<Rightarrow> jsnum" where
  "unsigned_literal s =
     (if startsWith s ''Infinity'' then Infty True
      else
        (let ip = takeWhile is_digit s; r = dropWhile is_digit s
         in if startsWith r ''.'' then
              (let fp = takeWhile is_digit (tl r); r2 = dropWhile is_digit (tl r)
               in if ip = [] \<and> fp = [] then NaN
                  else Num (scale10 (real (digits_val (ip @ fp)) / 10 ^ length fp)
                              (exponent_part r2)))
            else if ip = [] then NaN
            else Num (scale10 (real (digits_val ip)) (exponent_part r))))"

definition parseFloat :: "string \<Rightarrow> jsnum" where
  "parseFloat s =
     (let t = dropWhile is_space s
      in if startsWith t ''-'' then jneg (unsigned_literal (tl t))
         else if startsWith t ''+'' then unsigned_literal (tl t)
         else unsigned_literal t)"


section \<open>Models and the raw records of the aggregator\<close>

text \<open>
  The canonical model object. The fields \<open>id\<close>, \<open>input\<close>, \<open>output\<close> and \<open>context\<close> carry the
  suffix \<open>_m\<close> here. \<open>maxOutput\<close> and the three extra prices may be \<open>null\<close> or missing (\<open>None\<close>). The
  flags a fallback entry does not carry read as false, and its missing description as
  the empty string: the program only ever tests them for truthiness.
\<close>

record model =
  id_m :: string
  provider :: string
  name :: string
  input_m :: jsnum
  output_m :: jsnum
  context_m :: nat
  maxOutput :: "nat option"
  vision :: bool
  audio :: bool
  video :: bool
  imageOut :: bool
  tools :: bool
  reasoning :: bool
  structuredOutput :: bool
  cacheRead :: "jsnum option"
  cacheWrite :: "jsnum option"
  thinkingCost :: "jsnum option"
  description :: string

text \<open>
  One record of the aggregator's \<open>data\<close> array, with the fields \<open>fetchLivePricing\<close> reads.
  \<open>None\<close> stands for a field that is missing or \<open>null\<close>; prices are strings. The field
  \<open>max_completion_tokens\<close> is \<open>m.top_provider?.max_completion_tokens\<close>, and the fields
  \<open>id\<close>, \<open>name\<close>, \<open>pricing\<close>, \<open>architecture\<close> and \<open>description\<close> carry the prefix
  \<open>raw_\<close>.
\<close>

record pricing =
  prompt :: "string option"
  completion :: "string option"
  input_cache_read :: "string option"
  input_cache_write :: "string option"
  internal_reasoning :: "string option"

record architecture =
  input_modalities :: "string list option"
  output_modalities :: "string list option"

record raw_model =
  raw_id :: string
  raw_name :: "string option"
  raw_pricing :: "pricing option"
  raw_architecture :: "architecture option"
  supported_parameters :: "string list option"
  context_length :: "nat option"
  max_completion_tokens :: "nat option"
  raw_description :: "string option"

subsection \<open>Provider names\<close>

definition PROVIDER_MAP :: "(string \<times> string) list" where
  "PROVIDER_MAP =
     [(''openai'', ''OpenAI''), (''anthropic'', ''Anthropic''), (''google'', ''Google''),
      (''deepseek'', ''DeepSeek''), (''meta-llama'', ''Meta''), (''x-ai'', ''xAI''),
      (''mistralai'', ''Mistral''), (''cohere'', ''Cohere''), (''qwen'', ''Qwen''),
      (''amazon'', ''Amazon''), (''nvidia'', ''NVIDIA''), (''microsoft'', ''Microsoft''),
      (''perplexity'', ''Perplexity''), (''ai21'', ''AI21''), (''together'', ''Together''),
      (''fireworks'', ''Fireworks''), (''groq'', ''Groq'')]"

text \<open>\<open>s.split("/")[0]\<close> and \<open>s.split("/").pop()\<close>.\<close>

definition first_segment :: "string \<Rightarrow> string" where
  "first_segment s = takeWhile (\<lambda>c. c \<noteq> CHR ''/'') s"

definition last_segment :: "string \<Rightarrow> string" where
  "last_segment s = rev (takeWhile (\<lambda>c. c \<noteq> CHR ''/'') (rev s))"

text \<open>
  The table is read with its own keys only (a slug that names a member of
  \<open>Object.prototype\<close> is outside the model).
\<close>

definition extractProvider :: "string \<Rightarrow> string" where
  "extractProvider modelId =
     (case map_of PROVIDER_MAP (first_segment modelId) of
        Some p \<Rightarrow> p
      | None \<Rightarrow> first_segment modelId)"

definition cleanName :: "string \<Rightarrow> string \<Rightarrow> string" where
  "cleanName nm prov =
     (if startsWith nm (prov @ '': '') then drop (length prov + 2) nm else nm)"

subsection \<open>The normalizing loop of fetchLivePricing\<close>

text \<open>\<open>m.pricing?.f || "0"\<close>: a missing, null or empty price string reads as \<open>"0"\<close>.\<close>

definition price_field :: "raw_model \<Rightarrow> (pricing \<Rightarrow> string option) \<Rightarrow> string option" where
  "price_field m f = (case raw_pricing m of None \<Rightarrow> None | Some p \<Rightarrow> f p)"

definition or_zero :: "string option \<Rightarrow> string" where
  "or_zero v = (case v of None \<Rightarrow> ''0'' | Some s \<Rightarrow> if s = [] then ''0'' else s)"

text \<open>\<open>parseFloat((perToken * 1_000_000).toFixed(4))\<close>.\<close>

definition per_million :: "jsnum \<Rightarrow> jsnum" where
  "per_million perToken = toFixed 4 (jmul perToken (Num 1000000))"

text \<open>\<open>m.pricing?.f ? parseFloat((parseFloat(m.pricing.f) * 1_000_000).toFixed(4)) : null\<close>.\<close>

definition extra_price :: "raw_model \<Rightarrow> (pricing \<Rightarrow> string option) \<Rightarrow> jsnum option" where
  "extra_price m f =
     (case price_field m f of
        None \<Rightarrow> None
      | Some s \<Rightarrow> if s = [] then None else Some (per_million (parseFloat s)))"

definition or_else :: "'a option \<Rightarrow> 'a \<Rightarrow> 'a" where
  "or_else v d = (case v of None \<Rightarrow> d | Some x \<Rightarrow> x)"

definition modalities :: "raw_model \<Rightarrow> (architecture \<Rightarrow> string list option) \<Rightarrow> string list" where
  "modalities m f =
     or_else (case raw_architecture m of None \<Rightarrow> None | Some a \<Rightarrow> f a) [''text'']"

text \<open>The object pushed for a record that is kept.\<close>

definition build_model :: "raw_model \<Rightarrow> model" where
  "build_model m =
     (let inputPerToken = parseFloat (or_zero (price_field m prompt));
          outputPerToken = parseFloat (or_zero (price_field m completion));
          prov = extractProvider (raw_id m);
          inputMods = modalities m input_modalities;
          outputMods = modalities m output_modalities;
          params = or_else (supported_parameters m) []
      in \<lparr> id_m = raw_id m,
           provider = prov,
           name = cleanName (case raw_name m of
                               None \<Rightarrow> last_segment (raw_id m)
                             | Some n \<Rightarrow> if n = [] then last_segment (raw_id m) else n) prov,
           input_m = per_million inputPerToken,
           output_m = per_million outputPerToken,
           context_m = or_else (context_length m) 0,
           maxOutput = Some (or_else (max_completion_tokens m) 0),
           vision = (''image'' \<in> set inputMods),
           audio = (''audio'' \<in> set inputMods),
           video = (''video'' \<in> set inputMods),
           imageOut = (''image'' \<in> set outputMods),
           tools = (''tools'' \<in> set params),
           reasoning = (''reasoning'' \<in> set params \<or> ''include_reasoning'' \<in> set params),
           structuredOutput = (''structured_outputs'' \<in> set params),
           cacheRead = extra_price m input_cache_read,
           cacheWrite = extra_price m input_cache_write,
           thinkingCost = extra_price m internal_reasoning,
           description = take 200 (or_else (raw_description m) []) \<rparr>)"

text \<open>
  The \<open>for (const m of data)\<close> loop, with the array \<open>models\<close> and the set \<open>seen\<close> it
  updates. The three \<open>continue\<close> tests come in the order of the source; an id enters
  \<open>seen\<close> only when its record is pushed.
\<close>

fun normalize_loop :: "raw_model list \<Rightarrow> model list \<Rightarrow> string set \<Rightarrow> model list" where
  "normalize_loop [] models seen = models"
| "normalize_loop (m # data) models seen =
     (let inputPerToken = parseFloat (or_zero (price_field m prompt));
          outputPerToken = parseFloat (or_zero (price_field m completion))
      in if inputPerToken = Num 0 \<and> outputPerToken = Num 0 then normalize_loop data models seen
         else if raw_id m \<in> seen then normalize_loop data models seen
         else if startsWith (raw_id m) ''openrouter/'' then normalize_loop data models seen
         else normalize_loop data (models @ [build_model m]) (insert (raw_id m) seen))"

definition normalize_batch :: "raw_model list \<Rightarrow> model list" where
  "normalize_batch data = normalize_loop data [] {}"

text \<open>The first and the third test of the loop, as predicates of a record.\<close>

definition both_zero :: "raw_model \<Rightarrow> bool" where
  "both_zero m =
     (parseFloat (or_zero (price_field m prompt)) = Num 0 \<and>
      parseFloat (or_zero (price_field m completion)) = Num 0)"

definition meta_model :: "raw_model \<Rightarrow> bool" where
  "meta_model m = startsWith (raw_id m) ''openrouter/''"

subsection \<open>Sorting\<close>

text \<open>
  \<open>Array.prototype.sort\<close> with a comparator is a stable sort (ECMAScript 2019; the
  program needs Node 18). It is modelled by insertion from the right: an element moves
  past exactly the elements the comparator puts before it (a positive result); a NaN
  result counts as \<open>0\<close>. With a comparator that is not a consistent order the order the
  engine produces is implementation-defined, and this function is then one possible
  result only.
\<close>

fun insert_sorted :: "('a \<Rightarrow> 'a \<Rightarrow> jsnum) \<Rightarrow> 'a \<Rightarrow> 'a list \<Rightarrow> 'a list" where
  "insert_sorted cmp x [] = [x]"
| "insert_sorted cmp x (y # ys) =
     (if jlt (Num 0) (cmp x y) then y # insert_sorted cmp x ys else x # y # ys)"

definition js_sort :: "('a \<Rightarrow> 'a \<Rightarrow> jsnum) \<Rightarrow> 'a list \<Rightarrow> 'a list" where
  "js_sort cmp xs = foldr (insert_sorted cmp) xs []"

text \<open>
  \<open>(a, b) => a.provider.localeCompare(b.provider) || a.input - b.input\<close>. The collation
  \<open>localeCompare\<close> belongs to the host (ICU), so it is a parameter \<open>lc\<close>; its result is an
  integer.
\<close>

definition by_provider_input :: "(string \<Rightarrow> string \<Rightarrow> int) \<Rightarrow> model \<Rightarrow> model \<Rightarrow> jsnum" where
  "by_provider_input lc a b =
     (if lc (provider a) (provider b) \<noteq> 0 then Num (real_of_int (lc (provider a) (provider b)))
      else jsub (input_m a) (input_m b))"

text \<open>
  The order the sorted list is to have: provider names ascending under the collation,
  then input prices ascending.
\<close>

definition in_order :: "(string \<Rightarrow> string \<Rightarrow> int) \<Rightarrow> model \<Rightarrow> model \<Rightarrow> bool" where
  "in_order lc a b =
     (lc (provider a) (provider b) < 0 \<or>
      (lc (provider a) (provider b) = 0 \<and> jle (input_m a) (input_m b)))"

text \<open>What \<open>fetchLivePricing\<close> makes of a response body's \<open>data\<close>.\<close>

definition live_models :: "(string \<Rightarrow> string \<Rightarrow> int) \<Rightarrow> raw_model list \<Rightarrow> model list" where
  "live_models lc data = js_sort (by_provider_input lc) (normalize_batch data)"


section \<open>The cache file and the resolver\<close>

subsection \<open>Values read from the cache file\<close>

text \<open>
  What \<open>JSON.parse\<close> returns, and \<open>undefined\<close> beside it for a property that is not
  there. An object is the list of its own properties; its keys are distinct, since
  \<open>JSON.parse\<close> keeps one value for each key.
\<close>

datatype json =
    JNull
  | JBool bool
  | JNum real
  | JStr string
  | JArr "json list"
  | JObj "(string \<times> json) list"

datatype jsval = Undefined | Val json

datatype exn = TypeError | SyntaxError | SystemError | FetchError

text \<open>
  Reading the property \<open>timestamp\<close> or \<open>models\<close> of a parsed value: a TypeError on
  \<open>null\<close>, the own property of an object, and \<open>undefined\<close> on everything else (neither
  name is a member of a prototype).
\<close>

fun get_prop :: "json \<Rightarrow> string \<Rightarrow> exn + jsval" where
  "get_prop JNull k = Inl TypeError"
| "get_prop (JObj kvs) k = Inr (case map_of kvs k of None \<Rightarrow> Undefined | Some v \<Rightarrow> Val v)"
| "get_prop v k = Inr Undefined"

fun truthy :: "jsval \<Rightarrow> bool" where
  "truthy Undefined = False"
| "truthy (Val JNull) = False"
| "truthy (Val (JBool b)) = b"
| "truthy (Val (JNum x)) = (x \<noteq> 0)"
| "truthy (Val (JStr s)) = (s \<noteq> [])"
| "truthy (Val (JArr xs)) = True"
| "truthy (Val (JObj kvs)) = True"

text \<open>
  The conversion to a number that \<open>Date.now() - raw.timestamp\<close> applies to the right
  operand. Strings, arrays and objects convert through their string form; that part of
  ECMAScript is the parameter \<open>conv\<close>.
\<close>

fun to_number :: "(json \<Rightarrow> jsnum) \<Rightarrow> jsval \<Rightarrow> jsnum" where
  "to_number conv Undefined = NaN"
| "to_number conv (Val JNull) = Num 0"
| "to_number conv (Val (JBool b)) = Num (if b then 1 else 0)"
| "to_number conv (Val (JNum x)) = Num x"
| "to_number conv (Val v) = conv v"

subsection \<open>The world outside the program\<close>

text \<open>
  The cache file as \<open>existsSync\<close>, \<open>readFileSync\<close> and \<open>JSON.parse\<close> find it: not there;
  there but \<open>readFileSync\<close> throws; read but \<open>JSON.parse\<close> throws; or parsed to a value.
\<close>

datatype cache_file = Missing | Unreadable | Malformed | Content json

text \<open>
  The outcome of the request: \<open>fetch\<close> rejects (network error, timeout); the status is
  not ok; \<open>res.json()\<close> rejects; or the body's \<open>data\<close> array.
\<close>

datatype response = NetworkError | HttpError nat | BadBody | Body "raw_model list"

text \<open>
  All that a run takes from outside: the cache file; the clock \<open>Date.now()\<close>, read as
  one value; the reply to the request; whether \<open>mkdirSync\<close> and \<open>writeFileSync\<close>
  succeed; the host's \<open>localeCompare\<close>; and the conversion to a number of strings,
  arrays and objects.
\<close>

record env =
  cache_state :: cache_file
  now :: real
  reply :: response
  writable :: bool
  localeCompare :: "string \<Rightarrow> string \<Rightarrow> int"
  string_form_number :: "json \<Rightarrow> jsnum"

definition CACHE_TTL_MS :: real where
  "CACHE_TTL_MS = 6 * 60 * 60 * 1000"

subsection \<open>Exceptions\<close>

text \<open>
  A computation that may throw returns \<open>Inl\<close> of the exception. \<open>and_then\<close> sequences
  two steps; \<open>try_catch body handler\<close> is \<open>try { body } catch { handler }\<close> for the
  handlers of this program, none of which looks at the exception.
\<close>

definition and_then :: "exn + 'a \<Rightarrow> ('a \<Rightarrow> exn + 'b) \<Rightarrow> exn + 'b" where
  "and_then m f = (case m of Inl e \<Rightarrow> Inl e | Inr v \<Rightarrow> f v)"

definition try_catch :: "exn + 'a \<Rightarrow> exn + 'a \<Rightarrow> exn + 'a" where
  "try_catch body handler = (case body of Inl e \<Rightarrow> handler | Inr v \<Rightarrow> Inr v)"

definition existsSync :: "env \<Rightarrow> bool" where
  "existsSync e = (cache_state e \<noteq> Missing)"

text \<open>\<open>JSON.parse(readFileSync(CACHE_FILE, "utf-8"))\<close>.\<close>

definition parse_cache_file :: "env \<Rightarrow> exn + json" where
  "parse_cache_file e =
     (case cache_state e of
        Missing \<Rightarrow> Inl SystemError
      | Unreadable \<Rightarrow> Inl SystemError
      | Malformed \<Rightarrow> Inl SyntaxError
      | Content v \<Rightarrow> Inr v)"

subsection \<open>readCache and writeCache\<close>

text \<open>The result \<open>null\<close> is \<open>Val JNull\<close>.\<close>

definition readCache :: "env \<Rightarrow> exn + jsval" where
  "readCache e =
     try_catch
       (if \<not> existsSync e then Inr (Val JNull)
        else
          and_then (parse_cache_file e) (\<lambda>raw.
          and_then (get_prop raw ''timestamp'') (\<lambda>ts.
            if jgt (jsub (Num (now e)) (to_number (string_form_number e) ts)) (Num CACHE_TTL_MS)
            then Inr (Val JNull)
            else get_prop raw ''models'')))
       (Inr (Val JNull))"

text \<open>
  \<open>writeCache\<close> returns nothing; what the model returns is the snapshot it has put on
  disk, \<open>(timestamp, models)\<close>, or \<open>None\<close> when \<open>mkdirSync\<close> or \<open>writeFileSync\<close> threw and
  the empty handler swallowed it.
\<close>

definition writeCache :: "env \<Rightarrow> model list \<Rightarrow> exn + (real \<times> model list) option" where
  "writeCache e ms =
     try_catch (if writable e then Inr (Some (now e, ms)) else Inl SystemError) (Inr None)"

subsection \<open>fetchLivePricing\<close>

definition fetchLivePricing :: "env \<Rightarrow> exn + model list" where
  "fetchLivePricing e =
     (case reply e of
        NetworkError \<Rightarrow> Inl FetchError
      | HttpError st \<Rightarrow> Inl FetchError
      | BadBody \<Rightarrow> Inl SyntaxError
      | Body data \<Rightarrow> Inr (live_models (localeCompare e) data))"

subsection \<open>The fallback table\<close>

definition fallback_entry ::
  "string \<Rightarrow> string \<Rightarrow> string \<Rightarrow> real \<Rightarrow> real \<Rightarrow> nat \<Rightarrow> nat \<Rightarrow> bool \<Rightarrow> bool \<Rightarrow> bool \<Rightarrow> bool \<Rightarrow> model" where
  "fallback_entry i p n inp outp ctx mx vis tls rsn so =
     \<lparr> id_m = i, provider = p, name = n, input_m = Num inp, output_m = Num outp,
       context_m = ctx, maxOutput = Some mx, vision = vis, audio = False, video = False,
       imageOut = False, tools = tls, reasoning = rsn, structuredOutput = so,
       cacheRead = None, cacheWrite = None, thinkingCost = None, description = [] \<rparr>"

definition FALLBACK_MODELS :: "model list" where
  "FALLBACK_MODELS =
     [fallback_entry ''openai/gpt-4.1'' ''OpenAI'' ''GPT-4.1'' 2 8 1047576 32768 True True False True,
      fallback_entry ''openai/gpt-4.1-mini'' ''OpenAI'' ''GPT-4.1 Mini'' (4 / 10) (16 / 10) 1047576 32768 True True False True,
      fallback_entry ''openai/gpt-4.1-nano'' ''OpenAI'' ''GPT-4.1 Nano'' (1 / 10) (4 / 10) 1047576 32768 True True False True,
      fallback_entry ''openai/o3'' ''OpenAI'' ''o3'' 10 40 200000 100000 True True True True,
      fallback_entry ''openai/o4-mini'' ''OpenAI'' ''o4-mini'' (11 / 10) (44 / 10) 200000 100000 True True True True,
      fallback_entry ''anthropic/claude-sonnet-4.5'' ''Anthropic'' ''Claude Sonnet 4.5'' 3 15 1000000 64000 True True True True,
      fallback_entry ''anthropic/claude-haiku-3.5'' ''Anthropic'' ''Claude Haiku 3.5'' (8 / 10) 4 200000 8192 True True False False,
      fallback_entry ''google/gemini-2.5-pro'' ''Google'' ''Gemini 2.5 Pro'' (125 / 100) 10 1048576 65536 True True True True,
      fallback_entry ''google/gemini-2.5-flash'' ''Google'' ''Gemini 2.5 Flash'' (15 / 100) (6 / 10) 1048576 65536 True True True True,
      fallback_entry ''deepseek/deepseek-chat'' ''DeepSeek'' ''DeepSeek V3'' (27 / 100) (11 / 10) 131072 8192 False True False False,
      fallback_entry ''deepseek/deepseek-r1'' ''DeepSeek'' ''DeepSeek R1'' (55 / 100) (219 / 100) 163840 8192 False False True False,
      fallback_entry ''x-ai/grok-3'' ''xAI'' ''Grok 3'' 3 15 131072 8192 False True False False,
      fallback_entry ''x-ai/grok-3-mini'' ''xAI'' ''Grok 3 Mini'' (3 / 10) (5 / 10) 131072 8192 False True True False,
      fallback_entry ''mistralai/mistral-large'' ''Mistral'' ''Mistral Large'' 2 6 128000 8192 False True False True,
      fallback_entry ''mistralai/mistral-small'' ''Mistral'' ''Mistral Small'' (1 / 10) (3 / 10) 128000 8192 False True False True]"

subsection \<open>getModels\<close>

datatype source = Live | Cache | StaleCache | Fallback

text \<open>
  The \<open>models\<close> of the result are a list of model objects when the program built them
  itself, and whatever value the cache file holds under \<open>models\<close> otherwise.
\<close>

datatype models_value = Models "model list" | FromFile jsval

text \<open>
  The resolved set \<open>{models, source}\<close>, with what the call did to the outside world:
  whether it made the request, and the snapshot it wrote, if any.
\<close>

record resolved =
  models :: models_value
  source :: source
  fetched :: bool
  written :: "(real \<times> model list) option"

text \<open>
  The inner \<open>try\<close> of the handler: \<open>Some\<close> of the stale result when its \<open>return\<close> is
  reached, \<open>None\<close> when control falls out of the \<open>try\<close> statement.
\<close>

definition stale_read :: "env \<Rightarrow> exn + resolved option" where
  "stale_read e =
     try_catch
       (if existsSync e then
          and_then (parse_cache_file e) (\<lambda>raw.
          and_then (get_prop raw ''models'') (\<lambda>ms.
            Inr (Some \<lparr> models = FromFile ms, source = StaleCache, fetched = True, written = None \<rparr>)))
        else Inr None)
       (Inr None)"

definition degrade :: "env \<Rightarrow> exn + resolved" where
  "degrade e =
     and_then (stale_read e) (\<lambda>r.
       case r of
         Some st \<Rightarrow> Inr st
       | None \<Rightarrow> Inr \<lparr> models = Models FALLBACK_MODELS, source = Fallback, fetched = True, written = None \<rparr>)"

definition fetch_tier :: "env \<Rightarrow> exn + resolved" where
  "fetch_tier e =
     try_catch
       (and_then (fetchLivePricing e) (\<lambda>ms.
        and_then (writeCache e ms) (\<lambda>w.
          Inr \<lparr> models = Models ms, source = Live, fetched = True, written = w \<rparr>)))
       (degrade e)"

definition getModels :: "env \<Rightarrow> bool \<Rightarrow> exn + resolved" where
  "getModels e forceRefresh =
     (if \<not> forceRefresh then
        and_then (readCache e) (\<lambda>cached.
          if truthy cached
          then Inr \<lparr> models = FromFile cached, source = Cache, fetched = False, written = None \<rparr>
          else fetch_tier e)
      else fetch_tier e)"


section \<open>Costs\<close>

text \<open>Token counts are integers: the command line gives them through \<open>parseInt\<close>.\<close>

definition estimateTokens :: "string \<Rightarrow> int" where
  "estimateTokens txt = max 1 \<lceil>real (length txt) / 4\<rceil>"

record cost =
  inputCost :: jsnum
  outputCost :: jsnum
  totalCost :: jsnum

definition calculateCost :: "model \<Rightarrow> int \<Rightarrow> int \<Rightarrow> cost" where
  "calculateCost m inputTokens outputTokens =
     (let ic = jmul (Num (real_of_int inputTokens / 1000000)) (input_m m);
          oc = jmul (Num (real_of_int outputTokens / 1000000)) (output_m m)
      in \<lparr> inputCost = ic, outputCost = oc, totalCost = jadd ic oc \<rparr>)"

section \<open>Best model for each use case\<close>

text \<open>
  One entry of \<open>categories\<close>: \<open>filter\<close> is \<open>qualifies\<close>, and \<open>sort\<close> is \<open>ranking\<close>, \<open>None\<close>
  for the entries that have no \<open>sort\<close>. The sign "greater than or equal" in two of the
  labels is written \<open>>=\<close>.
\<close>

record category =
  label :: string
  qualifies :: "model \<Rightarrow> bool"
  ranking :: "(model \<Rightarrow> model \<Rightarrow> jsnum) option"

definition by_context_desc :: "model \<Rightarrow> model \<Rightarrow> jsnum" where
  "by_context_desc a b = Num (real (context_m b) - real (context_m a))"

definition by_maxOutput_desc :: "model \<Rightarrow> model \<Rightarrow> jsnum" where
  "by_maxOutput_desc a b = Num (real (or_else (maxOutput b) 0) - real (or_else (maxOutput a) 0))"

text \<open>\<open>(a, b) => (a.input + a.output) - (b.input + b.output)\<close>.\<close>

definition by_price_sum :: "model \<Rightarrow> model \<Rightarrow> jsnum" where
  "by_price_sum a b = jsub (jadd (input_m a) (output_m a)) (jadd (input_m b) (output_m b))"

definition categories :: "category list" where
  "categories =
     [\<lparr> label = ''Cheapest overall'', qualifies = (\<lambda>m. True), ranking = None \<rparr>,
      \<lparr> label = ''Cheapest with vision'', qualifies = vision, ranking = None \<rparr>,
      \<lparr> label = ''Cheapest with tools'', qualifies = tools, ranking = None \<rparr>,
      \<lparr> label = ''Cheapest reasoning/CoT'', qualifies = reasoning, ranking = None \<rparr>,
      \<lparr> label = ''Cheapest JSON output'', qualifies = structuredOutput, ranking = None \<rparr>,
      \<lparr> label = ''Cheapest >=128K context'', qualifies = (\<lambda>m. 128000 \<le> context_m m), ranking = None \<rparr>,
      \<lparr> label = ''Cheapest >=1M context'', qualifies = (\<lambda>m. 1000000 \<le> context_m m), ranking = None \<rparr>,
      \<lparr> label = ''Cheapest with audio'', qualifies = audio, ranking = None \<rparr>,
      \<lparr> label = ''Biggest context window'', qualifies = (\<lambda>m. True), ranking = Some by_context_desc \<rparr>,
      \<lparr> label = ''Biggest max output'', qualifies = (\<lambda>m. True), ranking = Some by_maxOutput_desc \<rparr>]"

text \<open>
  One turn of the loop over the categories: the label with \<open>None\<close> for the dash printed
  when nothing qualifies, and with \<open>filtered[0]\<close> otherwise. Reading \<open>best.name\<close> of a
  missing \<open>filtered[0]\<close> would throw.
\<close>

definition best_of :: "model list \<Rightarrow> category \<Rightarrow> exn + (string \<times> model option)" where
  "best_of ms cat =
     (let filtered = filter (qualifies cat) ms
      in if length filtered = 0 then Inr (label cat, None)
         else
           (case js_sort (case ranking cat of Some c \<Rightarrow> c | None \<Rightarrow> by_price_sum) filtered of
              [] \<Rightarrow> Inl TypeError
            | best # rest \<Rightarrow> Inr (label cat, Some best)))"

fun best_loop :: "model list \<Rightarrow> category list \<Rightarrow> exn + (string \<times> model option) list" where
  "best_loop ms [] = Inr []"
| "best_loop ms (cat # cats) =
     and_then (best_of ms cat) (\<lambda>line.
     and_then (best_loop ms cats) (\<lambda>lines. Inr (line # lines)))"

definition printBestFor :: "model list \<Rightarrow> exn + (string \<times> model option) list" where
  "printBestFor ms = best_loop ms categories"

section \<open>The command\<close>

text \<open>
  The object \<open>parseArgs\<close> returns, each field with the prefix \<open>arg_\<close>. A number option is
  \<open>None\<close> when it was not given or \<open>parseInt\<close> gave NaN.
\<close>

record args =
  arg_prompt :: "string option"
  arg_inputTokens :: "int option"
  arg_outputTokens :: "int option"
  arg_models :: "string list option"
  arg_providers :: "string list option"
  arg_monthly :: "int option"
  arg_sort :: string
  arg_json :: bool
  arg_cheap :: bool
  arg_help :: bool
  arg_version :: bool
  arg_list :: bool
  arg_refresh :: bool
  arg_top :: "int option"
  arg_detail :: "string option"
  arg_vision :: bool
  arg_tools :: bool
  arg_reasoning :: bool
  arg_minContext :: "int option"
  arg_caps :: bool
  arg_bestFor :: bool

text \<open>The object \<open>parseArgs\<close> starts from, which is what it returns for an empty command line.\<close>

definition default_args :: args where
  "default_args =
     \<lparr> arg_prompt = None, arg_inputTokens = None, arg_outputTokens = None, arg_models = None,
       arg_providers = None, arg_monthly = None, arg_sort = ''cost'', arg_json = False,
       arg_cheap = False, arg_help = False, arg_version = False, arg_list = False,
       arg_refresh = False, arg_top = None, arg_detail = None, arg_vision = False,
       arg_tools = False, arg_reasoning = False, arg_minContext = None, arg_caps = False,
       arg_bestFor = False \<rparr>"

text \<open>Truthiness of an optional string and of an optional integer.\<close>

definition given_str :: "string option \<Rightarrow> bool" where
  "given_str v = (case v of None \<Rightarrow> False | Some s \<Rightarrow> s \<noteq> [])"

definition given_int :: "int option \<Rightarrow> bool" where
  "given_int v = (case v of None \<Rightarrow> False | Some n \<Rightarrow> n \<noteq> 0)"

text \<open>\<open>toLowerCase\<close> and \<open>includes\<close> (here \<open>includes_str\<close>), on ASCII strings.\<close>

definition lower_char :: "char \<Rightarrow> char" where
  "lower_char c =
     (case map_of (zip ''ABCDEFGHIJKLMNOPQRSTUVWXYZ'' ''abcdefghijklmnopqrstuvwxyz'') c of
        Some l \<Rightarrow> l
      | None \<Rightarrow> c)"

definition toLowerCase :: "string \<Rightarrow> string" where
  "toLowerCase s = map lower_char s"

fun includes_str :: "string \<Rightarrow> string \<Rightarrow> bool" where
  "includes_str [] f = (f = [])"
| "includes_str (c # s) f = (startsWith (c # s) f \<or> includes_str s f)"

definition matches_model :: "string \<Rightarrow> model \<Rightarrow> bool" where
  "matches_model f m = (includes_str (toLowerCase (id_m m)) f \<or> includes_str (toLowerCase (name m)) f)"

definition matches_provider :: "string list \<Rightarrow> model \<Rightarrow> bool" where
  "matches_provider ps m = (\<exists>p \<in> set ps. includes_str (toLowerCase (provider m)) p)"

text \<open>
  The names of the members of \<open>Object.prototype\<close>. An object literal answers to each of
  them although it does not own them: to \<open>__proto__\<close> with \<open>Object.prototype\<close> itself,
  to the others with a function.
\<close>

definition object_prototype_names :: "string list" where
  "object_prototype_names =
     [''constructor'', ''__defineGetter__'', ''__defineSetter__'', ''hasOwnProperty'',
      ''__lookupGetter__'', ''__lookupSetter__'', ''isPrototypeOf'', ''propertyIsEnumerable'',
      ''toString'', ''valueOf'', ''__proto__'', ''toLocaleString'']"

text \<open>The first statement of \<open>listModels\<close>: the provider filter, when one is given.\<close>

definition provider_filtered :: "model list \<Rightarrow> string list option \<Rightarrow> model list" where
  "provider_filtered ms filterProviders =
     (case filterProviders of None \<Rightarrow> ms | Some ps \<Rightarrow> filter (matches_provider ps) ms)"

text \<open>
  \<open>listModels\<close>: the models it lists. It has no exit of its own. It groups the models in
  the object \<open>byProvider\<close>, which starts as \<open>{}\<close>: for a provider name that is a member
  name of \<open>Object.prototype\<close> the test \<open>!byProvider[m.provider]\<close> finds that member, no
  array is stored, and \<open>byProvider[m.provider].push(m)\<close> throws a TypeError.
\<close>

definition listModels :: "model list \<Rightarrow> string list option \<Rightarrow> exn + model list" where
  "listModels ms filterProviders =
     (let shown = provider_filtered ms filterProviders
      in if \<exists>m \<in> set shown. provider m \<in> set object_prototype_names then Inl TypeError
         else Inr shown)"

definition sourceLabel :: "source \<Rightarrow> string" where
  "sourceLabel src =
     (case src of
        Live \<Rightarrow> ''live from OpenRouter''
      | Cache \<Rightarrow> ''cached''
      | StaleCache \<Rightarrow> ''stale cache (offline)''
      | Fallback \<Rightarrow> ''offline fallback'')"

text \<open>The filters of \<open>main\<close>, applied in the order of the source.\<close>

definition apply_filters :: "args \<Rightarrow> model list \<Rightarrow> model list" where
  "apply_filters a allModels =
     (let m1 = (case arg_models a of
                  None \<Rightarrow> allModels
                | Some fs \<Rightarrow> filter (\<lambda>m. \<exists>f \<in> set fs. matches_model f m) allModels);
          m2 = (case arg_providers a of
                  None \<Rightarrow> m1
                | Some ps \<Rightarrow> filter (matches_provider ps) m1);
          m3 = (if arg_vision a then filter vision m2 else m2);
          m4 = (if arg_tools a then filter tools m3 else m3);
          m5 = (if arg_reasoning a then filter reasoning m4 else m4)
      in if given_int (arg_minContext a)
         then filter (\<lambda>m. or_else (arg_minContext a) 0 \<le> int (context_m m)) m5
         else m5)"

text \<open>
  A row of \<open>results\<close>: the model with its costs (\<open>{...m, inputCost, outputCost, totalCost,
  monthlyCost}\<close>).
\<close>

record row =
  row_model :: model
  row_cost :: cost
  monthlyCost :: jsnum

text \<open>
  What \<open>results.sort\<close> is handed: a comparator; a function that throws a TypeError when
  it is called; or a value that is not a function.
\<close>

datatype 'a compare_fn = Compare "'a \<Rightarrow> 'a \<Rightarrow> jsnum" | ThrowsWhenCalled | NotCallable

text \<open>
  The members of \<open>Object.prototype\<close> as comparators. \<open>Object(a, b)\<close> returns the object
  \<open>a\<close> and \<open>toString\<close>, called on \<open>undefined\<close>, a string: as numbers both are NaN. Every
  other function starts with \<open>ToObject\<close> of its \<open>this\<close>, which is \<open>undefined\<close>, and
  throws.
\<close>

definition prototype_member :: "string \<Rightarrow> 'a compare_fn" where
  "prototype_member key =
     (if key = ''__proto__'' then NotCallable
      else if key = ''constructor'' \<or> key = ''toString'' then Compare (\<lambda>a b. NaN)
      else ThrowsWhenCalled)"

text \<open>
  \<open>sorters[key]\<close>: the four own entries, then the members of the prototype, and \<open>None\<close>
  for \<open>undefined\<close>.
\<close>

definition sorters :: "(string \<Rightarrow> string \<Rightarrow> int) \<Rightarrow> string \<Rightarrow> row compare_fn option" where
  "sorters lc key =
     (if key = ''input'' then
        Some (Compare (\<lambda>a b. jsub (input_m (row_model a)) (input_m (row_model b))))
      else if key = ''output'' then
        Some (Compare (\<lambda>a b. jsub (output_m (row_model a)) (output_m (row_model b))))
      else if key = ''name'' then
        Some (Compare (\<lambda>a b. Num (real_of_int (lc (name (row_model a)) (name (row_model b))))))
      else if key = ''context'' then
        Some (Compare (\<lambda>a b. by_context_desc (row_model a) (row_model b)))
      else if key \<in> set object_prototype_names then Some (prototype_member key)
      else None)"

text \<open>\<open>(a, b) => a.totalCost - b.totalCost\<close>.\<close>

definition by_totalCost :: "row \<Rightarrow> row \<Rightarrow> jsnum" where
  "by_totalCost a b = jsub (totalCost (row_cost a)) (totalCost (row_cost b))"

text \<open>
  \<open>xs.sort(f)\<close>: a TypeError at once when \<open>f\<close> is not a function; a throwing function
  throws as soon as two elements are compared, which a list of two or more needs.
\<close>

definition sort_with :: "'a compare_fn \<Rightarrow> 'a list \<Rightarrow> exn + 'a list" where
  "sort_with f xs =
     (case f of
        Compare c \<Rightarrow> Inr (js_sort c xs)
      | ThrowsWhenCalled \<Rightarrow> if length xs < 2 then Inr xs else Inl TypeError
      | NotCallable \<Rightarrow> Inl TypeError)"

text \<open>\<open>xs.slice(0, n)\<close>: a negative \<open>n\<close> counts from the end.\<close>

definition slice0 :: "int \<Rightarrow> 'a list \<Rightarrow> 'a list" where
  "slice0 n xs = (if n < 0 then take (length xs - nat (- n)) xs else take (nat n) xs)"

text \<open>
  The objects handed to \<open>JSON.stringify\<close>. A field that is \<open>None\<close> is a key that is
  missing or \<open>undefined\<close>, which \<open>JSON.stringify\<close> leaves out.
\<close>

record capabilities =
  cap_vision :: bool
  cap_audio :: bool
  cap_tools :: bool
  cap_reasoning :: bool
  cap_structured_output :: bool

record json_model =
  j_id :: string
  j_provider :: string
  j_name :: string
  input_per_1m :: jsnum
  output_per_1m :: jsnum
  context_window :: nat
  max_output :: "nat option"
  estimated_cost :: jsnum
  monthly_cost :: "jsnum option"
  j_capabilities :: capabilities
  cache_read_per_1m :: "jsnum option"
  cache_write_per_1m :: "jsnum option"
  thinking_per_1m :: "jsnum option"

record json_out =
  input_tokens :: int
  output_tokens :: int
  source_label :: string
  monthly_requests :: "int option"
  out_models :: "json_model list"

text \<open>\<open>v ? {key: v} : {}\<close> for a price \<open>v\<close> that may be null.\<close>

definition when_truthy :: "jsnum option \<Rightarrow> jsnum option" where
  "when_truthy v = (case v of None \<Rightarrow> None | Some x \<Rightarrow> if truthy_num x then Some x else None)"

definition json_entry :: "args \<Rightarrow> row \<Rightarrow> json_model" where
  "json_entry a r =
     (let m = row_model r
      in \<lparr> j_id = id_m m, j_provider = provider m, j_name = name m,
           input_per_1m = input_m m, output_per_1m = output_m m,
           context_window = context_m m,
           max_output = (case maxOutput m of
                           None \<Rightarrow> None
                         | Some n \<Rightarrow> if n = 0 then None else Some n),
           estimated_cost = toFixed 6 (totalCost (row_cost r)),
           monthly_cost = (if given_int (arg_monthly a) then Some (toFixed 2 (monthlyCost r))
                           else None),
           j_capabilities =
             \<lparr> cap_vision = vision m, cap_audio = audio m, cap_tools = tools m,
               cap_reasoning = reasoning m, cap_structured_output = structuredOutput m \<rparr>,
           cache_read_per_1m = when_truthy (cacheRead m),
           cache_write_per_1m = when_truthy (cacheWrite m),
           thinking_per_1m = when_truthy (thinkingCost m) \<rparr>)"

text \<open>
  What a run prints, without its layout: the version, the help, a listing, the
  recommendations, a model's details, one of the two error messages, the JSON object, or
  the table.
\<close>

datatype printed =
    Version
  | Help
  | Listing "model list"
  | Recommendations "(string \<times> model option) list"
  | Details model
  | NoModelFound
  | NoModelsMatched
  | Json json_out
  | Table "row list"

text \<open>
  \<open>main\<close> from the point where \<open>getModels\<close> has returned, for a \<open>models\<close> value that is a
  list of model objects: the exit code with what was printed. \<open>process.exit(1)\<close> gives
  the code \<open>1\<close>, a \<open>return\<close> or the end of \<open>main\<close> the code \<open>0\<close>.
\<close>

definition main_with :: "(string \<Rightarrow> string \<Rightarrow> int) \<Rightarrow> args \<Rightarrow> model list \<Rightarrow> source \<Rightarrow> exn + nat \<times> printed" where
  "main_with lc a allModels src =
     (if arg_list a then
        and_then (listModels allModels (arg_providers a)) (\<lambda>shown. Inr (0, Listing shown))
      else if arg_bestFor a then
        and_then (printBestFor allModels) (\<lambda>lines. Inr (0, Recommendations lines))
      else if given_str (arg_detail a) then
        (case find (matches_model (or_else (arg_detail a) [])) allModels of
           None \<Rightarrow> Inr (1, NoModelFound)
         | Some match \<Rightarrow> Inr (0, Details match))
      else
        (let inputTokens0 = (if given_str (arg_prompt a) \<and> \<not> given_int (arg_inputTokens a)
                             then Some (estimateTokens (or_else (arg_prompt a) []))
                             else arg_inputTokens a);
             inputTokens = (if given_int inputTokens0 then or_else inputTokens0 0 else 200);
             outputTokens = (if given_int (arg_outputTokens a) then or_else (arg_outputTokens a) 0
                             else max 300 (inputTokens * 2));
             ms = apply_filters a allModels
         in if length ms = 0 then Inr (1, NoModelsMatched)
            else
              (let results = map (\<lambda>m.
                       let c = calculateCost m inputTokens outputTokens
                       in \<lparr> row_model = m, row_cost = c,
                            monthlyCost = (if given_int (arg_monthly a)
                                           then jmul (totalCost c) (Num (real_of_int (or_else (arg_monthly a) 0)))
                                           else Num 0) \<rparr>) ms
               in and_then
                    (sort_with (case sorters lc (arg_sort a) of
                                  Some f \<Rightarrow> f
                                | None \<Rightarrow> Compare by_totalCost) results)
                    (\<lambda>sorted_results.
                       let display = (if given_int (arg_top a)
                                      then slice0 (or_else (arg_top a) 0) sorted_results
                                      else if arg_cheap a then slice0 5 sorted_results
                                      else sorted_results)
                       in if arg_json a then
                            Inr (0, Json \<lparr> input_tokens = inputTokens, output_tokens = outputTokens,
                                           source_label = sourceLabel src,
                                           monthly_requests = (if given_int (arg_monthly a) then arg_monthly a else None),
                                           out_models = map (json_entry a) display \<rparr>)
                          else Inr (0, Table display)))))"

text \<open>
  A parsed value read as a model object. The value is an object with no other keys than
  those of a model; \<open>id\<close>, \<open>provider\<close> and \<open>name\<close> are strings, \<open>input\<close> and \<open>output\<close>
  numbers and \<open>context\<close> a natural number; \<open>maxOutput\<close> and the three extra prices are
  numbers, null or missing; a flag is a boolean, null or missing; the description is a
  string, null or missing. On such an object every property \<open>main\<close> reads has the value
  of the record's field. \<open>None\<close> for every other value.
\<close>

definition model_keys :: "string list" where
  "model_keys =
     [''id'', ''provider'', ''name'', ''input'', ''output'', ''context'', ''maxOutput'',
      ''vision'', ''audio'', ''video'', ''imageOut'', ''tools'', ''reasoning'',
      ''structuredOutput'', ''cacheRead'', ''cacheWrite'', ''thinkingCost'', ''description'']"

definition str_field :: "(string \<times> json) list \<Rightarrow> string \<Rightarrow> string option" where
  "str_field kvs k = (case map_of kvs k of Some (JStr s) \<Rightarrow> Some s | _ \<Rightarrow> None)"

definition num_field :: "(string \<times> json) list \<Rightarrow> string \<Rightarrow> real option" where
  "num_field kvs k = (case map_of kvs k of Some (JNum x) \<Rightarrow> Some x | _ \<Rightarrow> None)"

definition as_nat :: "real \<Rightarrow> nat option" where
  "as_nat x = (if 0 \<le> x \<and> real_of_int \<lfloor>x\<rfloor> = x then Some (nat \<lfloor>x\<rfloor>) else None)"

definition nat_field :: "(string \<times> json) list \<Rightarrow> string \<Rightarrow> nat option" where
  "nat_field kvs k = (case num_field kvs k of Some x \<Rightarrow> as_nat x | None \<Rightarrow> None)"

definition opt_nat_field :: "(string \<times> json) list \<Rightarrow> string \<Rightarrow> nat option option" where
  "opt_nat_field kvs k =
     (case map_of kvs k of
        None \<Rightarrow> Some None
      | Some JNull \<Rightarrow> Some None
      | Some (JNum x) \<Rightarrow> map_option Some (as_nat x)
      | _ \<Rightarrow> None)"

definition opt_price_field :: "(string \<times> json) list \<Rightarrow> string \<Rightarrow> jsnum option option" where
  "opt_price_field kvs k =
     (case map_of kvs k of
        None \<Rightarrow> Some None
      | Some JNull \<Rightarrow> Some None
      | Some (JNum x) \<Rightarrow> Some (Some (Num x))
      | _ \<Rightarrow> None)"

definition flag_field :: "(string \<times> json) list \<Rightarrow> string \<Rightarrow> bool option" where
  "flag_field kvs k =
     (case map_of kvs k of
        None \<Rightarrow> Some False
      | Some JNull \<Rightarrow> Some False
      | Some (JBool b) \<Rightarrow> Some b
      | _ \<Rightarrow> None)"

definition opt_str_field :: "(string \<times> json) list \<Rightarrow> string \<Rightarrow> string option" where
  "opt_str_field kvs k =
     (case map_of kvs k of
        None \<Rightarrow> Some []
      | Some JNull \<Rightarrow> Some []
      | Some (JStr s) \<Rightarrow> Some s
      | _ \<Rightarrow> None)"

definition model_of_fields :: "(string \<times> json) list \<Rightarrow> model option" where
  "model_of_fields kvs =
     Option.bind (str_field kvs ''id'') (\<lambda>v_id.
     Option.bind (str_field kvs ''provider'') (\<lambda>v_provider.
     Option.bind (str_field kvs ''name'') (\<lambda>v_name.
     Option.bind (num_field kvs ''input'') (\<lambda>v_input.
     Option.bind (num_field kvs ''output'') (\<lambda>v_output.
     Option.bind (nat_field kvs ''context'') (\<lambda>v_context.
     Option.bind (opt_nat_field kvs ''maxOutput'') (\<lambda>v_maxOutput.
     Option.bind (flag_field kvs ''vision'') (\<lambda>v_vision.
     Option.bind (flag_field kvs ''audio'') (\<lambda>v_audio.
     Option.bind (flag_field kvs ''video'') (\<lambda>v_video.
     Option.bind (flag_field kvs ''imageOut'') (\<lambda>v_imageOut.
     Option.bind (flag_field kvs ''tools'') (\<lambda>v_tools.
     Option.bind (flag_field kvs ''reasoning'') (\<lambda>v_reasoning.
     Option.bind (flag_field kvs ''structuredOutput'') (\<lambda>v_structuredOutput.
     Option.bind (opt_price_field kvs ''cacheRead'') (\<lambda>v_cacheRead.
     Option.bind (opt_price_field kvs ''cacheWrite'') (\<lambda>v_cacheWrite.
     Option.bind (opt_price_field kvs ''thinkingCost'') (\<lambda>v_thinkingCost.
     Option.bind (opt_str_field kvs ''description'') (\<lambda>v_description.
       Some \<lparr> id_m = v_id, provider = v_provider, name = v_name,
              input_m = Num v_input, output_m = Num v_output, context_m = v_context,
              maxOutput = v_maxOutput, vision = v_vision, audio = v_audio, video = v_video,
              imageOut = v_imageOut, tools = v_tools, reasoning = v_reasoning,
              structuredOutput = v_structuredOutput, cacheRead = v_cacheRead,
              cacheWrite = v_cacheWrite, thinkingCost = v_thinkingCost,
              description = v_description \<rparr>))))))))))))))))))"

definition model_object :: "json \<Rightarrow> model option" where
  "model_object v =
     (case v of
        JObj kvs \<Rightarrow> if \<forall>k \<in> set (map fst kvs). k \<in> set model_keys then model_of_fields kvs else None
      | _ \<Rightarrow> None)"

text \<open>
  The \<open>models\<close> value of a resolved set as a list of model objects: the list the program
  built, or an array from the cache file whose elements all read as model objects.
\<close>

definition model_objects :: "models_value \<Rightarrow> model list option" where
  "model_objects mv =
     (case mv of
        Models ms \<Rightarrow> Some ms
      | FromFile v \<Rightarrow>
          (case v of
             Val (JArr xs) \<Rightarrow> those (map model_object xs)
           | _ \<Rightarrow> None))"

definition is_array :: "jsval \<Rightarrow> bool" where
  "is_array v = (case v of Val (JArr xs) \<Rightarrow> True | _ \<Rightarrow> False)"

text \<open>\<open>models.length === 0\<close> for a value that is not an array and not \<open>undefined\<close> or \<open>null\<close>.\<close>

definition length_is_zero :: "jsval \<Rightarrow> bool" where
  "length_is_zero v =
     (case v of
        Val (JStr s) \<Rightarrow> s = []
      | Val (JObj kvs) \<Rightarrow> map_of kvs ''length'' = Some (JNum 0)
      | _ \<Rightarrow> False)"

text \<open>
  \<open>main\<close> from the same point for a \<open>models\<close> value \<open>v\<close> that is not an array. No such
  value has a method: \<open>filter\<close>, \<open>find\<close>, \<open>forEach\<close> and \<open>map\<close> are missing or, on an
  object from the file, not functions, and reading any property of \<open>undefined\<close> or \<open>null\<close>
  throws. So the list, best-for and detail modes end in a TypeError, and so does the
  comparison at its first filter; with no filter it comes to \<open>models.length === 0\<close>,
  which exits with \<open>1\<close> when true, and to \<open>models.map\<close>, which throws, when false.
\<close>

definition main_without_list :: "args \<Rightarrow> jsval \<Rightarrow> exn + nat \<times> printed" where
  "main_without_list a v =
     (if arg_list a \<or> arg_bestFor a \<or> given_str (arg_detail a) then Inl TypeError
      else if arg_models a \<noteq> None \<or> arg_providers a \<noteq> None \<or> arg_vision a \<or> arg_tools a \<or>
              arg_reasoning a \<or> given_int (arg_minContext a) then Inl TypeError
      else if v = Undefined \<or> v = Val JNull then Inl TypeError
      else if length_is_zero v then Inr (1, NoModelsMatched)
      else Inl TypeError)"

text \<open>
  \<open>main\<close>. The version and the help return before \<open>getModels\<close> is called. The result is
  \<open>None\<close> where this model says nothing: for an array from the cache file with an element
  that does not read as a model object.
\<close>

definition main :: "env \<Rightarrow> args \<Rightarrow> (exn + nat \<times> printed) option" where
  "main e a =
     (if arg_version a then Some (Inr (0, Version))
      else if arg_help a then Some (Inr (0, Help))
      else
        (case getModels e (arg_refresh a) of
           Inl x \<Rightarrow> Some (Inl x)
         | Inr r \<Rightarrow>
             (case models r of
                Models ms \<Rightarrow> Some (main_with (localeCompare e) a ms (source r))
              | FromFile v \<Rightarrow>
                  if is_array v
                  then map_option (\<lambda>ms. main_with (localeCompare e) a ms (source r))
                         (model_objects (models r))
                  else Some (main_without_list a v))))"


section \<open>Concrete inputs\<close>

text \<open>
  Inputs at which the statements below are evaluated. \<open>collate0\<close> stands in for the
  host's collation: it orders strings by length.
\<close>

definition collate0 :: "string \<Rightarrow> string \<Rightarrow> int" where
  "collate0 a b = int (length a) - int (length b)"

text \<open>No cache file and no network.\<close>

definition offline :: env where
  "offline = \<lparr> cache_state = Missing, now = 0, reply = NetworkError, writable = False,
               localeCompare = collate0, string_form_number = (\<lambda>v. NaN) \<rparr>"

text \<open>
  Cache files: a snapshot written at time \<open>1000\<close> with an empty model list; a file
  holding \<open>{"timestamp": 1000}\<close>; a file holding \<open>null\<close>; a file holding \<open>[]\<close>.
\<close>

definition with_file :: "json \<Rightarrow> real \<Rightarrow> env" where
  "with_file v t = \<lparr> cache_state = Content v, now = t, reply = NetworkError, writable = True,
                     localeCompare = collate0, string_form_number = (\<lambda>v. NaN) \<rparr>"

definition snapshot_file :: json where
  "snapshot_file = JObj [(''timestamp'', JNum 1000), (''models'', JArr [])]"

definition no_models_file :: json where
  "no_models_file = JObj [(''timestamp'', JNum 1000)]"

text \<open>The first entry of the fallback table, and a model whose cache-read price is zero.\<close>

definition gpt41 :: model where
  "gpt41 = fallback_entry ''openai/gpt-4.1'' ''OpenAI'' ''GPT-4.1'' 2 8 1047576 32768 True True False True"

definition free_cache_model :: model where
  "free_cache_model = gpt41 \<lparr> maxOutput := Some 0, cacheRead := Some (Num 0) \<rparr>"

text \<open>
  A cache file written at time \<open>1000\<close> that holds that model: its \<open>maxOutput\<close> and
  \<open>cacheRead\<close> are \<open>0\<close>.
\<close>

definition free_cache_entry :: json where
  "free_cache_entry =
     JObj [(''id'', JStr ''openai/gpt-4.1''), (''provider'', JStr ''OpenAI''),
           (''name'', JStr ''GPT-4.1''), (''input'', JNum 2), (''output'', JNum 8),
           (''context'', JNum 1047576), (''maxOutput'', JNum 0), (''vision'', JBool True),
           (''audio'', JBool False), (''video'', JBool False), (''imageOut'', JBool False),
           (''tools'', JBool True), (''reasoning'', JBool False),
           (''structuredOutput'', JBool True), (''cacheRead'', JNum 0),
           (''cacheWrite'', JNull), (''thinkingCost'', JNull), (''description'', JStr [])]"

definition free_cache_file :: json where
  "free_cache_file = JObj [(''timestamp'', JNum 1000), (''models'', JArr [free_cache_entry])]"


definition json_args :: args where
  "json_args = default_args \<lparr> arg_json := True \<rparr>"










text \<open>A raw record with nothing but an id and prices, and one that gives cache reads away.\<close>

definition raw_priced :: "string \<Rightarrow> string option \<Rightarrow> string option \<Rightarrow> raw_model" where
  "raw_priced i p c =
     \<lparr> raw_id = i, raw_name = None,
       raw_pricing = Some \<lparr> prompt = p, completion = c, input_cache_read = None,
                            input_cache_write = None, internal_reasoning = None \<rparr>,
       raw_architecture = None, supported_parameters = None, context_length = None,
       max_completion_tokens = None, raw_description = None \<rparr>"

definition free_cache_raw :: raw_model where
  "free_cache_raw =
     (raw_priced ''a/x'' (Some ''0.000001'') (Some ''0.000002''))
       \<lparr> raw_pricing := Some \<lparr> prompt = Some ''0.000001'', completion = Some ''0.000002'',
                               input_cache_read = Some ''0'', input_cache_write = None,
                               internal_reasoning = None \<rparr> \<rparr>"

text \<open>
  A batch of three records: a free one, a priced one with the same id, and one whose
  per-token prices are \<open>10^-11\<close>. And a record whose prompt price is not a number.
\<close>

definition batch3 :: "raw_model list" where
  "batch3 =
     [raw_priced ''a/x'' (Some ''0'') (Some ''0''),
      raw_priced ''a/x'' (Some ''0.000001'') (Some ''0.000002''),
      raw_priced ''b/y'' (Some ''0.00000000001'') (Some ''0.00000000001'')]"

definition unpriced :: raw_model where
  "unpriced = raw_priced ''a/z'' (Some ''abc'') (Some ''0.000002'')"

text \<open>
  A batch of three priced records from two providers whose names differ in length; the
  first and the last have the same provider and the same prompt price.
\<close>

definition batch_ab :: "raw_model list" where
  "batch_ab =
     [raw_priced ''bb/x'' (Some ''0.000002'') (Some ''0.000002''),
      raw_priced ''a/y'' (Some ''0.000003'') (Some ''0.000001''),
      raw_priced ''bb/z'' (Some ''0.000002'') (Some ''0.000004'')]"

text \<open>The third entry of the fallback table.\<close>

definition nano :: model where
  "nano = fallback_entry ''openai/gpt-4.1-nano'' ''OpenAI'' ''GPT-4.1 Nano'' (1 / 10) (4 / 10) 1047576 32768 True True False True"

text \<open>
  A batch of three priced records of one provider, the second with a prompt price that
  is not a number.
\<close>

definition batch_nan :: "raw_model list" where
  "batch_nan =
     [raw_priced ''a/x'' (Some ''0.000003'') (Some ''0.000001''),
      raw_priced ''a/y'' (Some ''abc'') (Some ''0.000001''),
      raw_priced ''a/z'' (Some ''0.000001'') (Some ''0.000001'')]"

section \<open>The resolver always returns\<close>

lemma readCache_returns: "\<exists>v. readCache e = Inr v"
  by (simp add: readCache_def try_catch_def split: sum.split)

lemma writeCache_returns: "\<exists>w. writeCache e ms = Inr w"
  by (simp add: writeCache_def try_catch_def)

lemma stale_read_returns: "\<exists>r. stale_read e = Inr r"
  by (simp add: stale_read_def try_catch_def split: sum.split)

lemma degrade_returns: "\<exists>r. degrade e = Inr r"
proof -
  obtain s where "stale_read e = Inr s" using stale_read_returns by blast
  then show ?thesis by (simp add: degrade_def and_then_def split: option.split)
qed

lemma fetch_tier_returns: "\<exists>r. fetch_tier e = Inr r"
proof -
  obtain d where d: "degrade e = Inr d" using degrade_returns by blast
  show ?thesis
    by (cases "fetchLivePricing e")
      (use d writeCache_returns[of e] in
        \<open>auto simp: fetch_tier_def try_catch_def and_then_def split: sum.split\<close>)
qed

lemma getModels_returns: "\<exists>r. getModels e forceRefresh = Inr r"
proof -
  obtain c where "readCache e = Inr c" using readCache_returns by blast
  then show ?thesis using fetch_tier_returns[of e]
    by (auto simp: getModels_def and_then_def)
qed

lemma fetch_fails: "(\<forall>data. reply e \<noteq> Body data) \<Longrightarrow> \<exists>x. fetchLivePricing e = Inl x"
  by (cases "reply e") (auto simp: fetchLivePricing_def)

lemma fetch_tier_fails: "(\<forall>data. reply e \<noteq> Body data) \<Longrightarrow> fetch_tier e = degrade e"
  using fetch_fails[of e] by (auto simp: fetch_tier_def try_catch_def and_then_def)

lemma readCache_missing: "cache_state e = Missing \<Longrightarrow> readCache e = Inr (Val JNull)"
  by (simp add: readCache_def existsSync_def try_catch_def)

lemma degrade_missing:
  "cache_state e = Missing \<Longrightarrow>
   degrade e = Inr \<lparr> models = Models FALLBACK_MODELS, source = Fallback, fetched = True, written = None \<rparr>"
  by (simp add: degrade_def stale_read_def existsSync_def try_catch_def and_then_def)

text \<open>
  C1. \<open>getModels\<close> never raises: whatever the cache file, the clock, the reply and the
  disk are, and whether or not a refresh is forced, it returns a resolved set. When the
  request fails and there is no cache file, that set is the fallback table with the
  source \<open>fallback\<close>.
\<close>

theorem getModels_never_raises:
  "(\<exists>r. getModels e forceRefresh = Inr r) \<and>
   ((\<forall>data. reply e \<noteq> Body data) \<and> cache_state e = Missing \<longrightarrow>
      getModels e forceRefresh =
        Inr \<lparr> models = Models FALLBACK_MODELS, source = Fallback, fetched = True, written = None \<rparr>)"
proof (intro conjI impI)
  show "\<exists>r. getModels e forceRefresh = Inr r" by (rule getModels_returns)
next
  assume a: "(\<forall>data. reply e \<noteq> Body data) \<and> cache_state e = Missing"
  then have "fetch_tier e =
      Inr \<lparr> models = Models FALLBACK_MODELS, source = Fallback, fetched = True, written = None \<rparr>"
    using fetch_tier_fails degrade_missing by simp
  then show "getModels e forceRefresh =
        Inr \<lparr> models = Models FALLBACK_MODELS, source = Fallback, fetched = True, written = None \<rparr>"
    using a by (simp add: getModels_def readCache_missing and_then_def)
qed

theorem getModels_never_raises_witness:
  "(\<forall>data. reply offline \<noteq> Body data) \<and> cache_state offline = Missing \<and>
   getModels offline False =
     Inr \<lparr> models = Models FALLBACK_MODELS, source = Fallback, fetched = True, written = None \<rparr>"
  using getModels_never_raises[of offline False] by (simp add: offline_def)

section \<open>The cache tiers\<close>

lemma get_prop_throws: "(\<exists>x. get_prop raw k = Inl x) = (raw = JNull)"
  by (cases raw) auto

lemma readCache_no_parse:
  "cache_state e \<in> {Missing, Unreadable, Malformed} \<Longrightarrow> readCache e = Inr (Val JNull)"
  by (auto simp: readCache_def existsSync_def parse_cache_file_def try_catch_def and_then_def)

lemma readCache_expired:
  "cache_state e = Content raw \<Longrightarrow> get_prop raw ''timestamp'' = Inr ts \<Longrightarrow>
   jgt (jsub (Num (now e)) (to_number (string_form_number e) ts)) (Num CACHE_TTL_MS) \<Longrightarrow>
   readCache e = Inr (Val JNull)"
  by (simp add: readCache_def existsSync_def parse_cache_file_def try_catch_def and_then_def)

lemma readCache_fresh:
  "cache_state e = Content raw \<Longrightarrow> get_prop raw ''timestamp'' = Inr ts \<Longrightarrow>
   jle (jsub (Num (now e)) (to_number (string_form_number e) ts)) (Num CACHE_TTL_MS) \<Longrightarrow>
   get_prop raw ''models'' = Inr ms \<Longrightarrow>
   readCache e = Inr ms"
  by (simp add: readCache_def existsSync_def parse_cache_file_def try_catch_def and_then_def
      jle_def jgt_def)

text \<open>
  C2, in the form that holds. A call without forced refresh returns the value under \<open>models\<close> with the
  source \<open>cache\<close>, making no request and writing nothing, when the cache file parses,
  \<open>now - timestamp <= TTL\<close> and that value is truthy (any array is, the empty one too).
  \<open>readCache\<close> never raises, and returns \<open>null\<close> when the file is missing, unreadable or
  malformed, or when \<open>now - timestamp > TTL\<close>.
\<close>

theorem fresh_cache_is_returned:
  "(\<exists>v. readCache e = Inr v) \<and>
   (cache_state e \<in> {Missing, Unreadable, Malformed} \<longrightarrow> readCache e = Inr (Val JNull)) \<and>
   (\<forall>raw ts. cache_state e = Content raw \<and> get_prop raw ''timestamp'' = Inr ts \<and>
        jgt (jsub (Num (now e)) (to_number (string_form_number e) ts)) (Num CACHE_TTL_MS) \<longrightarrow>
        readCache e = Inr (Val JNull)) \<and>
   (\<forall>raw ts ms. cache_state e = Content raw \<and> get_prop raw ''timestamp'' = Inr ts \<and>
        jle (jsub (Num (now e)) (to_number (string_form_number e) ts)) (Num CACHE_TTL_MS) \<and>
        get_prop raw ''models'' = Inr ms \<and> truthy ms \<longrightarrow>
        getModels e False =
          Inr \<lparr> models = FromFile ms, source = Cache, fetched = False, written = None \<rparr>)"
proof (intro conjI allI impI)
  show "\<exists>v. readCache e = Inr v" by (rule readCache_returns)
next
  assume "cache_state e \<in> {Missing, Unreadable, Malformed}"
  then show "readCache e = Inr (Val JNull)" by (rule readCache_no_parse)
next
  fix raw ts
  assume "cache_state e = Content raw \<and> get_prop raw ''timestamp'' = Inr ts \<and>
        jgt (jsub (Num (now e)) (to_number (string_form_number e) ts)) (Num CACHE_TTL_MS)"
  then show "readCache e = Inr (Val JNull)" using readCache_expired by blast
next
  fix raw ts ms
  assume a: "cache_state e = Content raw \<and> get_prop raw ''timestamp'' = Inr ts \<and>
        jle (jsub (Num (now e)) (to_number (string_form_number e) ts)) (Num CACHE_TTL_MS) \<and>
        get_prop raw ''models'' = Inr ms \<and> truthy ms"
  then have "readCache e = Inr ms" using readCache_fresh by blast
  with a show "getModels e False =
          Inr \<lparr> models = FromFile ms, source = Cache, fetched = False, written = None \<rparr>"
    by (simp add: getModels_def and_then_def)
qed

theorem fresh_cache_is_returned_witness:
  "readCache offline = Inr (Val JNull) \<and>
   readCache (with_file snapshot_file (1000 + CACHE_TTL_MS + 1)) = Inr (Val JNull) \<and>
   getModels (with_file snapshot_file (1000 + CACHE_TTL_MS)) False =
     Inr \<lparr> models = FromFile (Val (JArr [])), source = Cache, fetched = False, written = None \<rparr>"
  using fresh_cache_is_returned[of offline]
    fresh_cache_is_returned[of "with_file snapshot_file (1000 + CACHE_TTL_MS + 1)"]
    fresh_cache_is_returned[of "with_file snapshot_file (1000 + CACHE_TTL_MS)"]
  by (simp add: offline_def with_file_def snapshot_file_def jsub_def jgt_def jle_def CACHE_TTL_MS_def)

text \<open>
  The sentence of the specification fails on a file that parses and is fresh but holds no
  model list: \<open>{"timestamp": 1000}\<close> read at time \<open>1000\<close>. The call goes on to the
  request.
\<close>

theorem fresh_cache_counterexample:
  "getModels (with_file no_models_file 1000) False =
     Inr \<lparr> models = FromFile Undefined, source = StaleCache, fetched = True, written = None \<rparr>"
  by (simp add: getModels_def readCache_def fetch_tier_def degrade_def stale_read_def
      fetchLivePricing_def existsSync_def parse_cache_file_def try_catch_def and_then_def
      with_file_def no_models_file_def jsub_def jgt_def CACHE_TTL_MS_def)

lemma degrade_value:
  "degrade e =
     Inr (case cache_state e of
            Content raw \<Rightarrow>
              (case get_prop raw ''models'' of
                 Inr v \<Rightarrow> \<lparr> models = FromFile v, source = StaleCache, fetched = True, written = None \<rparr>
               | Inl x \<Rightarrow> \<lparr> models = Models FALLBACK_MODELS, source = Fallback, fetched = True, written = None \<rparr>)
          | _ \<Rightarrow> \<lparr> models = Models FALLBACK_MODELS, source = Fallback, fetched = True, written = None \<rparr>)"
  by (cases "cache_state e")
    (simp_all add: degrade_def stale_read_def existsSync_def parse_cache_file_def
      try_catch_def and_then_def split: sum.split)

lemma getModels_after_failure:
  assumes "\<forall>data. reply e \<noteq> Body data" and "getModels e forceRefresh = Inr r" and "fetched r"
  shows "degrade e = Inr r"
proof -
  have ft: "fetch_tier e = degrade e" using assms(1) by (rule fetch_tier_fails)
  obtain c where c: "readCache e = Inr c" using readCache_returns by blast
  show ?thesis
  proof (cases "\<not> forceRefresh \<and> truthy c")
    case True
    then have "getModels e forceRefresh =
        Inr \<lparr> models = FromFile c, source = Cache, fetched = False, written = None \<rparr>"
      using c by (simp add: getModels_def and_then_def)
    with assms(2,3) show ?thesis by auto
  next
    case False
    then have "getModels e forceRefresh = fetch_tier e"
      using c by (auto simp: getModels_def and_then_def)
    with assms(2) ft show ?thesis by simp
  qed
qed

text \<open>
  C9, in the form that holds. When the request has been made and has failed, the result is the
  fallback table exactly when the cache file is missing, cannot be read, does not parse,
  or parses to \<open>null\<close>. Every other parsed value, whatever its shape, gives the source
  \<open>stale-cache\<close> with the value under its \<open>models\<close> key, \<open>undefined\<close> when there is none.
\<close>

theorem degrade_chain:
  assumes "\<forall>data. reply e \<noteq> Body data" and "getModels e forceRefresh = Inr r" and "fetched r"
  shows "(source r = Fallback) = (cache_state e \<in> {Missing, Unreadable, Malformed, Content JNull}) \<and>
         (source r = Fallback \<longrightarrow> models r = Models FALLBACK_MODELS) \<and>
         (\<forall>raw. cache_state e = Content raw \<and> raw \<noteq> JNull \<longrightarrow>
            source r = StaleCache \<and> (\<exists>v. get_prop raw ''models'' = Inr v \<and> models r = FromFile v))"
proof -
  have d: "degrade e = Inr r" using assms by (rule getModels_after_failure)
  show ?thesis
  proof (cases "cache_state e")
    case (Content raw)
    show ?thesis
    proof (cases "raw = JNull")
      case True
      with Content d show ?thesis by (auto simp: degrade_value)
    next
      case False
      then obtain v where v: "get_prop raw ''models'' = Inr v"
        using get_prop_throws[of raw "''models''"] by (cases "get_prop raw ''models''") auto
      with Content d False show ?thesis by (auto simp: degrade_value)
    qed
  qed (use d in \<open>auto simp: degrade_value\<close>)
qed

theorem degrade_chain_witness:
  "(\<forall>data. reply (with_file (JArr []) 0) \<noteq> Body data) \<and>
   getModels (with_file (JArr []) 0) True =
     Inr \<lparr> models = FromFile Undefined, source = StaleCache, fetched = True, written = None \<rparr> \<and>
   cache_state (with_file (JArr []) 0) \<notin> {Missing, Unreadable, Malformed, Content JNull}"
proof -
  have g: "getModels (with_file (JArr []) 0) True =
     Inr \<lparr> models = FromFile Undefined, source = StaleCache, fetched = True, written = None \<rparr>"
    by (simp add: getModels_def fetch_tier_def degrade_def stale_read_def
      fetchLivePricing_def existsSync_def parse_cache_file_def try_catch_def and_then_def
      with_file_def)
  have f: "\<forall>data. reply (with_file (JArr []) 0) \<noteq> Body data" by (simp add: with_file_def)
  show ?thesis using degrade_chain[OF f g] g f by (simp add: with_file_def)
qed

text \<open>
  The sentence of the specification fails on a cache file that holds \<open>null\<close>: it parses, and
  the result is the fallback table.
\<close>

theorem degrade_chain_counterexample:
  "getModels (with_file JNull 0) True =
     Inr \<lparr> models = Models FALLBACK_MODELS, source = Fallback, fetched = True, written = None \<rparr>"
  by (simp add: getModels_def fetch_tier_def degrade_def stale_read_def
      fetchLivePricing_def existsSync_def parse_cache_file_def try_catch_def and_then_def
      with_file_def)

section \<open>Costs\<close>

text \<open>
  C5. \<open>calculateCost\<close> is a total function of the model and the two token counts. For a
  model whose two prices are numbers, the total for no tokens is \<open>0\<close>, the total for
  \<open>x\<close> and \<open>y\<close> tokens is the sum of the totals for \<open>(x, 0)\<close> and \<open>(0, y)\<close>, and each
  component is \<open>tokens / 1000000 * price\<close>. This holds for all integer token counts, the
  non-negative ones among them.
\<close>

theorem calculateCost_linear:
  assumes "input_m m = Num p" and "output_m m = Num q"
  shows "totalCost (calculateCost m 0 0) = Num 0 \<and>
         totalCost (calculateCost m x y) =
           jadd (totalCost (calculateCost m x 0)) (totalCost (calculateCost m 0 y)) \<and>
         inputCost (calculateCost m x y) = Num (real_of_int x / 1000000 * p) \<and>
         outputCost (calculateCost m x y) = Num (real_of_int y / 1000000 * q) \<and>
         totalCost (calculateCost m x y) =
           jadd (inputCost (calculateCost m x y)) (outputCost (calculateCost m x y))"
  using assms by (simp add: calculateCost_def Let_def)

theorem calculateCost_linear_witness:
  "input_m gpt41 = Num 2 \<and> output_m gpt41 = Num 8 \<and>
   totalCost (calculateCost gpt41 0 0) = Num 0 \<and>
   totalCost (calculateCost gpt41 1000 4000) =
     jadd (totalCost (calculateCost gpt41 1000 0)) (totalCost (calculateCost gpt41 0 4000)) \<and>
   totalCost (calculateCost gpt41 1000 4000) = Num (34 / 1000)"
proof -
  have i: "input_m gpt41 = Num 2" and o: "output_m gpt41 = Num 8"
    by (simp_all add: gpt41_def fallback_entry_def)
  have v: "totalCost (calculateCost gpt41 1000 4000) = Num (34 / 1000)"
    by (simp add: calculateCost_def i o)
  show ?thesis using calculateCost_linear[OF i o, of 1000 4000] i o v
    by simp
qed

section \<open>Sorting keeps the elements\<close>

lemma mset_insert_sorted: "mset (insert_sorted c x ys) = add_mset x (mset ys)"
  by (induction ys) auto

lemma mset_js_sort: "mset (js_sort c xs) = mset xs"
  by (induction xs) (auto simp: js_sort_def mset_insert_sorted)

lemma set_js_sort: "set (js_sort c xs) = set xs"
  using mset_js_sort[of c xs] by (metis set_mset_mset)

lemma length_js_sort: "length (js_sort c xs) = length xs"
  using mset_js_sort[of c xs] by (metis size_mset)

lemma js_sort_Nil_iff: "(js_sort c xs = []) = (xs = [])"
  using length_js_sort[of c xs] by (metis length_0_conv)

section \<open>Exit codes\<close>

lemma best_of_returns: "\<exists>l. best_of ms cat = Inr l"
proof (cases "filter (qualifies cat) ms = []")
  case True
  then show ?thesis by (simp add: best_of_def)
next
  case False
  then have "js_sort (case ranking cat of Some c \<Rightarrow> c | None \<Rightarrow> by_price_sum)
      (filter (qualifies cat) ms) \<noteq> []"
    by (simp add: js_sort_Nil_iff)
  with False show ?thesis by (auto simp: best_of_def Let_def split: list.split)
qed

lemma best_loop_returns: "\<exists>ls. best_loop ms cats = Inr ls"
proof (induction cats)
  case Nil
  show ?case by simp
next
  case (Cons cat cats)
  obtain l where "best_of ms cat = Inr l" using best_of_returns by blast
  with Cons show ?case by (auto simp: and_then_def)
qed

lemma printBestFor_returns: "\<exists>ls. printBestFor ms = Inr ls"
  by (simp add: printBestFor_def best_loop_returns)



lemma set_sort_with: "sort_with f xs = Inr ys \<Longrightarrow> set ys = set xs"
  by (cases f) (auto simp: sort_with_def set_js_sort split: if_splits)


















section \<open>The JSON output\<close>

lemma in_slice0: "x \<in> set (slice0 n xs) \<Longrightarrow> x \<in> set xs"
  by (cases "n < 0") (auto simp: slice0_def dest: in_set_takeD)

lemma set_apply_filters: "set (apply_filters a ms) \<subseteq> set ms"
  by (auto simp: apply_filters_def Let_def split: option.split)

lemma main_json_entries:
  assumes "main_with lc a ms src = Inr (c, Json out)" and "j \<in> set (out_models out)"
  shows "\<exists>r. row_model r \<in> set ms \<and> j = json_entry a r"
proof -
  note mw = assms(1)
  obtain ls where ls: "printBestFor ms = Inr ls" using printBestFor_returns by blast
  define inputTokens0 where "inputTokens0 =
     (if given_str (arg_prompt a) \<and> \<not> given_int (arg_inputTokens a)
      then Some (estimateTokens (or_else (arg_prompt a) [])) else arg_inputTokens a)"
  define inputTokens where "inputTokens = (if given_int inputTokens0 then or_else inputTokens0 0 else 200)"
  define outputTokens where "outputTokens =
     (if given_int (arg_outputTokens a) then or_else (arg_outputTokens a) 0 else max 300 (inputTokens * 2))"
  define mk where "mk = (\<lambda>m. let c = calculateCost m inputTokens outputTokens
                       in \<lparr> row_model = m, row_cost = c,
                            monthlyCost = (if given_int (arg_monthly a)
                                           then jmul (totalCost c) (Num (real_of_int (or_else (arg_monthly a) 0)))
                                           else Num 0) \<rparr>)"
  define f where "f = (case sorters lc (arg_sort a) of Some f \<Rightarrow> f | None \<Rightarrow> Compare by_totalCost)"
  define display :: "row list \<Rightarrow> row list" where "display = (\<lambda>sorted_results.
     if given_int (arg_top a) then slice0 (or_else (arg_top a) 0) sorted_results
     else if arg_cheap a then slice0 5 sorted_results
     else sorted_results)"
  have "\<exists>sorted_results. sort_with f (map mk (apply_filters a ms)) = Inr sorted_results \<and>
      out_models out = map (json_entry a) (display sorted_results)"
    using mw ls
    by (auto simp: main_with_def and_then_def Let_def display_def f_def mk_def
        outputTokens_def inputTokens_def inputTokens0_def
        split: if_splits option.splits sum.splits)
  then obtain sorted_results where
    sr: "sort_with f (map mk (apply_filters a ms)) = Inr sorted_results" and
    om: "out_models out = map (json_entry a) (display sorted_results)"
    by blast
  have "set (display sorted_results) \<subseteq> set sorted_results"
    by (auto simp: display_def dest: in_slice0)
  also have "\<dots> = mk ` set (apply_filters a ms)"
    using set_sort_with[OF sr] by simp
  finally have d: "set (display sorted_results) \<subseteq> mk ` set (apply_filters a ms)" .
  from assms(2) om obtain r where r: "r \<in> set (display sorted_results)" "j = json_entry a r" by auto
  with d obtain m where "m \<in> set (apply_filters a ms)" "r = mk m" by auto
  then have "row_model r \<in> set ms" using set_apply_filters by (auto simp: mk_def Let_def)
  with r show ?thesis by blast
qed

lemma main_json_resolved:
  assumes "main e a = Some (Inr (c, Json out))"
  shows "\<exists>r ms. getModels e (arg_refresh a) = Inr r \<and> model_objects (models r) = Some ms \<and>
           main_with (localeCompare e) a ms (source r) = Inr (c, Json out)"
proof -
  have nvh: "\<not> arg_version a" "\<not> arg_help a"
    using assms by (auto simp: main_def split: if_splits)
  show ?thesis
  proof (cases "getModels e (arg_refresh a)")
    case (Inl x)
    with nvh assms show ?thesis by (simp add: main_def)
  next
    case (Inr r)
    show ?thesis
    proof (cases "models r")
      case (Models ms)
      with Inr nvh assms show ?thesis by (simp add: main_def model_objects_def)
    next
      case (FromFile v)
      show ?thesis
      proof (cases "is_array v")
        case True
        with FromFile Inr nvh assms show ?thesis by (auto simp: main_def)
      next
        case False
        with FromFile Inr nvh assms have "main_without_list a v = Inr (c, Json out)"
          by (simp add: main_def)
        then show ?thesis by (simp add: main_without_list_def split: if_splits)
      qed
    qed
  qed
qed

lemma extra_price_zero: "price_field m f = Some ''0'' \<Longrightarrow> extra_price m f = Some (Num 0)"
  by (simp add: extra_price_def per_million_def toFixed_def parseFloat_def unsigned_literal_def
      is_space_def is_digit_def digits_val_def digit_val_def scale10_def exponent_part_def)

lemma when_truthy_None: "(when_truthy v = None) = (v = None \<or> v = Some (Num 0) \<or> v = Some NaN)"
  by (auto simp: when_truthy_def truthy_num_def split: option.split)

lemma main_json_free:
  "main_with collate0 json_args [free_cache_model] src =
     Inr (0, Json \<lparr> input_tokens = 200, output_tokens = 400, source_label = sourceLabel src,
                    monthly_requests = None,
                    out_models = [json_entry json_args
                       \<lparr> row_model = free_cache_model,
                         row_cost = calculateCost free_cache_model 200 400,
                         monthlyCost = Num 0 \<rparr>] \<rparr>)"
  by (simp add: main_with_def json_args_def default_args_def given_str_def given_int_def
      apply_filters_def Let_def js_sort_def or_else_def sorters_def sort_with_def
      object_prototype_names_def and_then_def)

lemma getModels_free_cache_file:
  "getModels (with_file free_cache_file 1000) False =
     Inr \<lparr> models = FromFile (Val (JArr [free_cache_entry])), source = Cache, fetched = False,
           written = None \<rparr>"
  by (simp add: getModels_def readCache_def existsSync_def parse_cache_file_def try_catch_def
      and_then_def with_file_def free_cache_file_def jsub_def jgt_def CACHE_TTL_MS_def)

lemma free_cache_entry_model:
  "model_objects (FromFile (Val (JArr [free_cache_entry]))) = Some [free_cache_model]"
  by (simp add: model_objects_def model_object_def model_of_fields_def free_cache_entry_def
      free_cache_model_def gpt41_def fallback_entry_def model_keys_def str_field_def
      num_field_def nat_field_def as_nat_def opt_nat_field_def opt_price_field_def
      flag_field_def opt_str_field_def)

lemma main_json_cached:
  "main (with_file free_cache_file 1000) json_args =
     Some (Inr (0, Json \<lparr> input_tokens = 200, output_tokens = 400, source_label = ''cached'',
                    monthly_requests = None,
                    out_models = [json_entry json_args
                       \<lparr> row_model = free_cache_model,
                         row_cost = calculateCost free_cache_model 200 400,
                         monthlyCost = Num 0 \<rparr>] \<rparr>))"
proof -
  have a: "\<not> arg_version json_args" "\<not> arg_help json_args" "\<not> arg_refresh json_args"
    by (simp_all add: json_args_def default_args_def)
  have l: "localeCompare (with_file free_cache_file 1000) = collate0"
    by (simp add: with_file_def)
  show ?thesis
    using a getModels_free_cache_file free_cache_entry_model
      main_json_free[of Cache]
    by (simp add: main_def is_array_def l sourceLabel_def)
qed

text \<open>
  C10. In the JSON output every entry of \<open>models\<close> is built by \<open>json_entry\<close> from one of
  the resolved models. Its \<open>max_output\<close> is left out exactly when the model's
  \<open>maxOutput\<close> is missing or \<open>0\<close>, and each of \<open>cache_read_per_1m\<close>,
  \<open>cache_write_per_1m\<close> and \<open>thinking_per_1m\<close> exactly when the model's value is null,
  \<open>0\<close> or NaN. So a model with the value \<open>0\<close> and the same model with no value give the
  same entry, although the two models differ; and normalization does produce the value
  \<open>0\<close>, from the price string \<open>"0"\<close>.
\<close>

theorem json_omits_zero:
  "(main e a = Some (Inr (c, Json out)) \<longrightarrow>
      (\<exists>r ms. getModels e (arg_refresh a) = Inr r \<and> model_objects (models r) = Some ms \<and>
         main_with (localeCompare e) a ms (source r) = Inr (c, Json out))) \<and>
   (main_with lc a ms src = Inr (c, Json out) \<longrightarrow>
      (\<forall>j \<in> set (out_models out). \<exists>r. row_model r \<in> set ms \<and> j = json_entry a r)) \<and>
   (max_output (json_entry a r) = None) =
      (maxOutput (row_model r) = None \<or> maxOutput (row_model r) = Some 0) \<and>
   (cache_read_per_1m (json_entry a r) = None) =
      (cacheRead (row_model r) = None \<or> cacheRead (row_model r) = Some (Num 0) \<or>
       cacheRead (row_model r) = Some NaN) \<and>
   (cache_write_per_1m (json_entry a r) = None) =
      (cacheWrite (row_model r) = None \<or> cacheWrite (row_model r) = Some (Num 0) \<or>
       cacheWrite (row_model r) = Some NaN) \<and>
   (thinking_per_1m (json_entry a r) = None) =
      (thinkingCost (row_model r) = None \<or> thinkingCost (row_model r) = Some (Num 0) \<or>
       thinkingCost (row_model r) = Some NaN) \<and>
   json_entry a (r \<lparr> row_model := (row_model r) \<lparr> maxOutput := Some 0 \<rparr> \<rparr>) =
     json_entry a (r \<lparr> row_model := (row_model r) \<lparr> maxOutput := None \<rparr> \<rparr>) \<and>
   json_entry a (r \<lparr> row_model := (row_model r) \<lparr> cacheRead := Some (Num 0) \<rparr> \<rparr>) =
     json_entry a (r \<lparr> row_model := (row_model r) \<lparr> cacheRead := None \<rparr> \<rparr>) \<and>
   json_entry a (r \<lparr> row_model := (row_model r) \<lparr> cacheWrite := Some (Num 0) \<rparr> \<rparr>) =
     json_entry a (r \<lparr> row_model := (row_model r) \<lparr> cacheWrite := None \<rparr> \<rparr>) \<and>
   json_entry a (r \<lparr> row_model := (row_model r) \<lparr> thinkingCost := Some (Num 0) \<rparr> \<rparr>) =
     json_entry a (r \<lparr> row_model := (row_model r) \<lparr> thinkingCost := None \<rparr> \<rparr>) \<and>
   (price_field m input_cache_read = Some ''0'' \<longrightarrow> cacheRead (build_model m) = Some (Num 0))"
proof (intro conjI impI ballI)
  assume "main e a = Some (Inr (c, Json out))"
  then show "\<exists>r ms. getModels e (arg_refresh a) = Inr r \<and> model_objects (models r) = Some ms \<and>
      main_with (localeCompare e) a ms (source r) = Inr (c, Json out)"
    by (rule main_json_resolved)
next
  fix j assume "main_with lc a ms src = Inr (c, Json out)" "j \<in> set (out_models out)"
  then show "\<exists>r. row_model r \<in> set ms \<and> j = json_entry a r" by (rule main_json_entries)
next
  assume "price_field m input_cache_read = Some ''0''"
  then show "cacheRead (build_model m) = Some (Num 0)"
    by (simp add: build_model_def Let_def extra_price_zero)
qed (auto simp: json_entry_def Let_def when_truthy_None when_truthy_def truthy_num_def split: option.split)

theorem json_omits_zero_witness:
  "price_field free_cache_raw input_cache_read = Some ''0'' \<and>
   cacheRead (build_model free_cache_raw) = Some (Num 0) \<and>
   cacheRead free_cache_model = Some (Num 0) \<and>
   maxOutput free_cache_model = Some 0 \<and>
   (\<exists>out. main (with_file free_cache_file 1000) json_args = Some (Inr (0, Json out)) \<and>
      main_with collate0 json_args [free_cache_model] Cache = Inr (0, Json out) \<and>
      map max_output (out_models out) = [None] \<and>
      map cache_read_per_1m (out_models out) = [None])"
proof -
  define r where "r = \<lparr> row_model = free_cache_model,
      row_cost = calculateCost free_cache_model 200 400, monthlyCost = Num 0 \<rparr>"
  define out where "out = \<lparr> input_tokens = 200, output_tokens = 400, source_label = ''cached'',
      monthly_requests = None, out_models = [json_entry json_args r] \<rparr>"
  note T = json_omits_zero[where m = free_cache_raw and a = json_args and r = r
      and e = "with_file free_cache_file 1000" and c = 0 and out = out
      and lc = collate0 and ms = "[free_cache_model]" and src = Cache]
  have p: "price_field free_cache_raw input_cache_read = Some ''0''"
    by (simp add: free_cache_raw_def raw_priced_def price_field_def)
  have b: "cacheRead (build_model free_cache_raw) = Some (Num 0)"
    using T p by blast
  have c: "cacheRead free_cache_model = Some (Num 0)" and mx: "maxOutput free_cache_model = Some 0"
    by (simp_all add: free_cache_model_def)
  have m: "main (with_file free_cache_file 1000) json_args = Some (Inr (0, Json out))"
    using main_json_cached by (simp add: out_def r_def)
  have g: "\<exists>res ms. getModels (with_file free_cache_file 1000) (arg_refresh json_args) = Inr res \<and>
      model_objects (models res) = Some ms \<and>
      main_with (localeCompare (with_file free_cache_file 1000)) json_args ms (source res) =
        Inr (0, Json out)"
    using T[THEN conjunct1] m by blast
  have "\<not> arg_refresh json_args" by (simp add: json_args_def default_args_def)
  with g getModels_free_cache_file free_cache_entry_model
  have w: "main_with collate0 json_args [free_cache_model] Cache = Inr (0, Json out)"
    by (auto simp: with_file_def)
  have e: "\<forall>j \<in> set (out_models out). \<exists>r. row_model r \<in> set [free_cache_model] \<and> j = json_entry json_args r"
    using T[THEN conjunct2, THEN conjunct1] w by blast
  have "(max_output (json_entry json_args r) = None) =
      (maxOutput (row_model r) = None \<or> maxOutput (row_model r) = Some 0)"
    by (rule T[THEN conjunct2, THEN conjunct2, THEN conjunct1])
  then have j1: "max_output (json_entry json_args r) = None"
    by (simp add: r_def mx)
  have "(cache_read_per_1m (json_entry json_args r) = None) =
      (cacheRead (row_model r) = None \<or> cacheRead (row_model r) = Some (Num 0) \<or>
       cacheRead (row_model r) = Some NaN)"
    by (rule T[THEN conjunct2, THEN conjunct2, THEN conjunct2, THEN conjunct1])
  then have j2: "cache_read_per_1m (json_entry json_args r) = None"
    by (simp add: r_def c)
  have o: "map max_output (out_models out) = [None]"
    "map cache_read_per_1m (out_models out) = [None]"
    using j1 j2 by (simp_all add: out_def)
  have "\<exists>out. main (with_file free_cache_file 1000) json_args = Some (Inr (0, Json out)) \<and>
      main_with collate0 json_args [free_cache_model] Cache = Inr (0, Json out) \<and>
      map max_output (out_models out) = [None] \<and>
      map cache_read_per_1m (out_models out) = [None]"
    by (rule exI[of _ out]) (simp add: m w o)
  with p b c mx show ?thesis by simp
qed

section \<open>Normalization\<close>

lemmas parse_defs = parseFloat_def unsigned_literal_def is_space_def is_digit_def digits_val_def
  digit_val_def scale10_def exponent_part_def

lemma input_m_build_model:
  "input_m (build_model m) = per_million (parseFloat (or_zero (price_field m prompt)))"
  by (simp add: build_model_def Let_def)

lemma output_m_build_model:
  "output_m (build_model m) = per_million (parseFloat (or_zero (price_field m completion)))"
  by (simp add: build_model_def Let_def)

lemma id_m_build_model: "id_m (build_model m) = raw_id m"
  by (simp add: build_model_def Let_def)

lemma normalize_loop_step:
  "normalize_loop (m # data) acc seen =
     (if both_zero m \<or> raw_id m \<in> seen \<or> meta_model m then normalize_loop data acc seen
      else normalize_loop data (acc @ [build_model m]) (insert (raw_id m) seen))"
  by (simp add: both_zero_def meta_model_def Let_def)

lemma normalize_loop_append:
  "seen = id_m ` set acc \<Longrightarrow>
   normalize_loop (pre @ post) acc seen =
     normalize_loop post (normalize_loop pre acc seen)
       (id_m ` set (normalize_loop pre acc seen))"
proof (induction pre arbitrary: acc seen)
  case Nil
  then show ?case by simp
next
  case (Cons m pre)
  have "insert (raw_id m) seen = id_m ` set (acc @ [build_model m])"
    using Cons.prems by (simp add: id_m_build_model)
  then show ?case
    using Cons.IH[of seen acc] Cons.IH[of "insert (raw_id m) seen" "acc @ [build_model m]"]
      Cons.prems
    by (simp only: append_Cons normalize_loop_step split: if_split) simp
qed

lemma normalize_loop_extends: "\<exists>rest. normalize_loop data acc seen = acc @ rest"
proof (induction data arbitrary: acc seen)
  case Nil
  show ?case by simp
next
  case (Cons m data)
  show ?case
  proof (cases "both_zero m \<or> raw_id m \<in> seen \<or> meta_model m")
    case True
    then show ?thesis using Cons[of acc seen] by (simp only: normalize_loop_step if_True)
  next
    case False
    obtain rest where "normalize_loop data (acc @ [build_model m]) (insert (raw_id m) seen) =
        (acc @ [build_model m]) @ rest"
      using Cons by blast
    with False show ?thesis by (simp only: normalize_loop_step if_False) simp
  qed
qed

lemma normalize_loop_ids:
  "seen = id_m ` set acc \<Longrightarrow>
   id_m ` set (normalize_loop data acc seen) =
     seen \<union> raw_id ` {r \<in> set data. \<not> both_zero r \<and> \<not> meta_model r}"
proof (induction data arbitrary: acc seen)
  case Nil
  then show ?case by simp
next
  case (Cons m data)
  show ?case
  proof (cases "both_zero m \<or> raw_id m \<in> seen \<or> meta_model m")
    case True
    have "id_m ` set (normalize_loop data acc seen) =
        seen \<union> raw_id ` {r \<in> set data. \<not> both_zero r \<and> \<not> meta_model r}"
      using Cons.IH[OF Cons.prems] .
    with True show ?thesis by (simp only: normalize_loop_step if_True) auto
  next
    case False
    have inv: "insert (raw_id m) seen = id_m ` set (acc @ [build_model m])"
      using Cons.prems by (simp add: id_m_build_model)
    have "id_m ` set (normalize_loop data (acc @ [build_model m]) (insert (raw_id m) seen)) =
        insert (raw_id m) seen \<union> raw_id ` {r \<in> set data. \<not> both_zero r \<and> \<not> meta_model r}"
      using Cons.IH[OF inv] .
    with False show ?thesis by (simp only: normalize_loop_step if_False) auto
  qed
qed

lemma normalize_loop_distinct:
  "seen = id_m ` set acc \<Longrightarrow> distinct (map id_m acc) \<Longrightarrow>
   distinct (map id_m (normalize_loop data acc seen))"
proof (induction data arbitrary: acc seen)
  case Nil
  then show ?case by simp
next
  case (Cons m data)
  show ?case
  proof (cases "both_zero m \<or> raw_id m \<in> seen \<or> meta_model m")
    case True
    then show ?thesis using Cons.IH[OF Cons.prems] by (simp only: normalize_loop_step if_True)
  next
    case False
    have inv: "insert (raw_id m) seen = id_m ` set (acc @ [build_model m])"
      using Cons.prems by (simp add: id_m_build_model)
    have "distinct (map id_m (acc @ [build_model m]))"
      using Cons.prems False by (auto simp: id_m_build_model)
    then show ?thesis using Cons.IH[OF inv] False by (simp only: normalize_loop_step if_False)
  qed
qed

lemma normalize_ids:
  "id_m ` set (normalize_batch data) = raw_id ` {r \<in> set data. \<not> both_zero r \<and> \<not> meta_model r}"
  using normalize_loop_ids[of "{}" "[]" data] by (simp add: normalize_batch_def)

lemma normalize_snoc:
  "normalize_batch (pre @ [m]) =
     normalize_batch pre @
       (if both_zero m \<or> raw_id m \<in> id_m ` set (normalize_batch pre) \<or> meta_model m then []
        else [build_model m])"
proof -
  have "normalize_batch (pre @ [m]) =
      normalize_loop [m] (normalize_batch pre) (id_m ` set (normalize_batch pre))"
    using normalize_loop_append[of "{}" "[]" pre "[m]"] by (simp add: normalize_batch_def)
  then show ?thesis by (simp only: normalize_loop_step normalize_loop.simps split: if_split) simp
qed

lemma normalize_prefix: "\<exists>rest. normalize_batch (pre @ post) = normalize_batch pre @ rest"
proof -
  have "normalize_batch (pre @ post) =
      normalize_loop post (normalize_batch pre) (id_m ` set (normalize_batch pre))"
    using normalize_loop_append[of "{}" "[]" pre post] by (simp add: normalize_batch_def)
  then show ?thesis using normalize_loop_extends by simp
qed

lemma meta_model_same_id: "raw_id r = raw_id m \<Longrightarrow> meta_model r = meta_model m"
  by (simp add: meta_model_def)

lemma normalize_origin:
  "x \<in> set (normalize_batch data) \<Longrightarrow>
   \<exists>pre m post. data = pre @ m # post \<and> x = build_model m \<and> \<not> both_zero m \<and> \<not> meta_model m \<and>
     (\<forall>r \<in> set pre. raw_id r = raw_id m \<longrightarrow> both_zero r)"
proof (induction data rule: rev_induct)
  case Nil
  then show ?case by (simp add: normalize_batch_def)
next
  case (snoc m data)
  show ?case
  proof (cases "x \<in> set (normalize_batch data)")
    case True
    then obtain pre m' post where d: "data = pre @ m' # post" "x = build_model m'"
        "\<not> both_zero m'" "\<not> meta_model m'"
        "\<forall>r \<in> set pre. raw_id r = raw_id m' \<longrightarrow> both_zero r"
      using snoc.IH by blast
    then have "data @ [m] = pre @ m' # (post @ [m])" by simp
    with d show ?thesis by blast
  next
    case False
    with snoc.prems have k: "\<not> (both_zero m \<or> raw_id m \<in> id_m ` set (normalize_batch data) \<or> meta_model m)"
      and x: "x = build_model m"
      by (auto simp: normalize_snoc split: if_splits)
    have "\<forall>r \<in> set data. raw_id r = raw_id m \<longrightarrow> both_zero r"
    proof (intro ballI impI)
      fix r assume r: "r \<in> set data" "raw_id r = raw_id m"
      show "both_zero r"
      proof (rule ccontr)
        assume "\<not> both_zero r"
        moreover have "\<not> meta_model r" using k r(2) meta_model_same_id by blast
        ultimately have "raw_id r \<in> id_m ` set (normalize_batch data)"
          using r(1) by (auto simp: normalize_ids)
        with k r(2) show False by simp
      qed
    qed
    with k x show ?thesis by (intro exI[of _ data] exI[of _ m] exI[of _ "[]"]) simp
  qed
qed

lemma batch3_normalized:
  "normalize_batch batch3 =
     [build_model (raw_priced ''a/x'' (Some ''0.000001'') (Some ''0.000002'')),
      build_model (raw_priced ''b/y'' (Some ''0.00000000001'') (Some ''0.00000000001''))]"
  by (simp add: batch3_def normalize_batch_def raw_priced_def price_field_def or_zero_def parse_defs)

text \<open>
  C3, in the form that holds. Going through a batch in order, a record emits nothing exactly when its
  two parsed per-token prices are both exactly zero, or a model with its id has already
  been emitted from an earlier record, or its id starts with \<open>openrouter/\<close>; every other
  record emits exactly one model. The ids already emitted are those of the earlier
  records that are priced and not excluded, so the ids of the output are distinct, and
  the record behind an emitted model is the first priced record with its id. What the
  loop has emitted for a prefix of the batch stays in place.
\<close>

theorem normalize_emits:
  "normalize_batch (pre @ [m]) =
     normalize_batch pre @
       (if both_zero m \<or> raw_id m \<in> id_m ` set (normalize_batch pre) \<or> meta_model m then []
        else [build_model m]) \<and>
   id_m ` set (normalize_batch pre) = raw_id ` {r \<in> set pre. \<not> both_zero r \<and> \<not> meta_model r} \<and>
   (\<exists>rest. normalize_batch (pre @ post) = normalize_batch pre @ rest) \<and>
   distinct (map id_m (normalize_batch data)) \<and>
   (\<forall>x \<in> set (normalize_batch data).
      \<exists>before r after. data = before @ r # after \<and> x = build_model r \<and>
        \<not> both_zero r \<and> \<not> meta_model r \<and>
        (\<forall>e \<in> set before. raw_id e = raw_id r \<longrightarrow> both_zero e))"
proof (intro conjI ballI)
  show "distinct (map id_m (normalize_batch data))"
    using normalize_loop_distinct[of "{}" "[]" data] by (simp add: normalize_batch_def)
qed (simp_all only: normalize_snoc normalize_ids normalize_prefix normalize_origin)

theorem normalize_emits_witness:
  "normalize_batch (take 1 batch3) = [] \<and>
   normalize_batch (take 1 batch3 @ [batch3 ! 1]) = [build_model (batch3 ! 1)] \<and>
   distinct (map id_m (normalize_batch batch3))"
proof -
  note T = normalize_emits[of "take 1 batch3" "batch3 ! 1" "[]" batch3]
  have e: "normalize_batch (take 1 batch3) = []"
    by (simp add: batch3_def normalize_batch_def raw_priced_def price_field_def or_zero_def parse_defs)
  have k: "\<not> (both_zero (batch3 ! 1) \<or> raw_id (batch3 ! 1) \<in> id_m ` set (normalize_batch (take 1 batch3)) \<or>
      meta_model (batch3 ! 1))"
    unfolding e
    by (simp add: batch3_def both_zero_def meta_model_def raw_priced_def price_field_def
        or_zero_def parse_defs)
  have "normalize_batch (take 1 batch3 @ [batch3 ! 1]) =
     normalize_batch (take 1 batch3) @
       (if both_zero (batch3 ! 1) \<or> raw_id (batch3 ! 1) \<in> id_m ` set (normalize_batch (take 1 batch3)) \<or>
           meta_model (batch3 ! 1) then []
        else [build_model (batch3 ! 1)])"
    by (rule T[THEN conjunct1])
  then have s: "normalize_batch (take 1 batch3 @ [batch3 ! 1]) = [build_model (batch3 ! 1)]"
    using k e by simp
  have d: "distinct (map id_m (normalize_batch batch3))"
    by (rule T[THEN conjunct2, THEN conjunct2, THEN conjunct2, THEN conjunct1])
  show ?thesis using e s d by simp
qed

text \<open>
  The sentence of the specification fails on the batch \<open>batch3\<close>. Its second record is emitted
  although its id came earlier in the batch, and the first record with that id does not
  survive; its third record is emitted although both of its per-million prices are \<open>0\<close>.
\<close>

theorem normalize_counterexample:
  "map (\<lambda>x. (id_m x, input_m x, output_m x)) (normalize_batch batch3) =
     [(''a/x'', Num 1, Num 2), (''b/y'', Num 0, Num 0)]"
  by (simp add: batch3_normalized id_m_build_model input_m_build_model output_m_build_model
      raw_priced_def price_field_def or_zero_def per_million_def toFixed_def parse_defs)

section \<open>Prices\<close>

lemma parseFloat_zero: "parseFloat ''0'' = Num 0"
  by (simp add: parse_defs)

lemma per_million_zero: "per_million (Num 0) = Num 0"
  by (simp add: per_million_def toFixed_def)

lemma per_million_NaN: "per_million NaN = NaN"
  by (simp add: per_million_def toFixed_def)

lemma round_half_close:
  fixes y :: real
  shows "\<bar>sgn y * real_of_int \<lfloor>\<bar>y\<bar> * 10 ^ 4 + 1 / 2\<rfloor> / 10 ^ 4 - y\<bar> \<le> 1 / 20000"
proof -
  define k where "k = \<lfloor>\<bar>y\<bar> * 10 ^ 4 + 1 / 2\<rfloor>"
  have lo: "real_of_int k \<le> \<bar>y\<bar> * 10 ^ 4 + 1 / 2" unfolding k_def by (rule of_int_floor_le)
  have hi: "\<bar>y\<bar> * 10 ^ 4 + 1 / 2 < real_of_int k + 1" unfolding k_def by linarith
  have a1: "real_of_int k / 10 ^ 4 - \<bar>y\<bar> \<le> 1 / 20000"
    using lo by (simp add: field_simps)
  have a2: "- (1 / 20000) \<le> real_of_int k / 10 ^ 4 - \<bar>y\<bar>"
    using hi by (simp add: field_simps)
  have a: "\<bar>real_of_int k / 10 ^ 4 - \<bar>y\<bar>\<bar> \<le> 1 / 20000"
    using a1 a2 by linarith
  show ?thesis
  proof (cases "0 \<le> y")
    case True
    then show ?thesis using a by (cases "y = 0") (auto simp: k_def sgn_if)
  next
    case False
    then have "sgn y * real_of_int k / 10 ^ 4 - y = - (real_of_int k / 10 ^ 4 - \<bar>y\<bar>)"
      by (simp add: sgn_if)
    then show ?thesis using a unfolding k_def by (simp only: abs_minus)
  qed
qed

lemma per_million_rounds:
  assumes "\<bar>p * 1000000\<bar> < 10 ^ 21"
  shows "\<exists>n::int. per_million (Num p) = Num (real_of_int n / 10000) \<and>
           \<bar>real_of_int n / 10000 - p * 1000000\<bar> \<le> 1 / 20000"
proof -
  define y where "y = p * 1000000"
  define n where "n = (if 0 \<le> y then \<lfloor>\<bar>y\<bar> * 10 ^ 4 + 1 / 2\<rfloor> else - \<lfloor>\<bar>y\<bar> * 10 ^ 4 + 1 / 2\<rfloor>)"
  have s: "sgn y * real_of_int \<lfloor>\<bar>y\<bar> * 10 ^ 4 + 1 / 2\<rfloor> / 10 ^ 4 = real_of_int n / 10000"
    by (cases "y = 0") (auto simp: n_def sgn_if)
  have "per_million (Num p) = Num (sgn y * real_of_int \<lfloor>\<bar>y\<bar> * 10 ^ 4 + 1 / 2\<rfloor> / 10 ^ 4)"
    using assms by (simp add: per_million_def toFixed_def y_def)
  moreover have "\<bar>real_of_int n / 10000 - y\<bar> \<le> 1 / 20000"
    using round_half_close[of y] s by simp
  ultimately show ?thesis using s y_def by auto
qed

text \<open>
  C4, in the form that holds. Each model the normalizer emits carries, for its two prices, the price
  string of its record read by \<open>parseFloat\<close>, multiplied by 1,000,000 and rounded to
  four decimals by \<open>toFixed(4)\<close>: when the string reads as a number \<open>p\<close> with
  \<open>|p * 1000000| < 10^21\<close> the price is a multiple of \<open>0.0001\<close> at most \<open>0.00005\<close> away
  from \<open>p * 1000000\<close>. A missing, null or empty price field is read as \<open>"0"\<close> and gives
  the price \<open>0\<close>. A string that is not empty and that \<open>parseFloat\<close> cannot read is not
  replaced: the price is NaN.
\<close>

theorem normalized_prices:
  "(\<forall>x \<in> set (normalize_batch data). \<exists>m \<in> set data. id_m x = raw_id m \<and>
      input_m x = per_million (parseFloat (or_zero (price_field m prompt))) \<and>
      output_m x = per_million (parseFloat (or_zero (price_field m completion)))) \<and>
   (v = None \<or> v = Some [] \<longrightarrow> per_million (parseFloat (or_zero v)) = Num 0) \<and>
   (v = Some s \<and> s \<noteq> [] \<and> parseFloat s = NaN \<longrightarrow> per_million (parseFloat (or_zero v)) = NaN) \<and>
   (v = Some s \<and> s \<noteq> [] \<and> parseFloat s = Num p \<and> \<bar>p * 1000000\<bar> < 10 ^ 21 \<longrightarrow>
      (\<exists>n::int. per_million (parseFloat (or_zero v)) = Num (real_of_int n / 10000) \<and>
         \<bar>real_of_int n / 10000 - p * 1000000\<bar> \<le> 1 / 20000))"
proof (intro conjI ballI impI)
  fix x assume "x \<in> set (normalize_batch data)"
  then obtain pre m post where "data = pre @ m # post" "x = build_model m"
    using normalize_origin by blast
  then show "\<exists>m \<in> set data. id_m x = raw_id m \<and>
      input_m x = per_million (parseFloat (or_zero (price_field m prompt))) \<and>
      output_m x = per_million (parseFloat (or_zero (price_field m completion)))"
    by (auto simp: id_m_build_model input_m_build_model output_m_build_model)
next
  assume "v = None \<or> v = Some []"
  then show "per_million (parseFloat (or_zero v)) = Num 0"
    by (auto simp: or_zero_def parseFloat_zero per_million_zero)
next
  assume "v = Some s \<and> s \<noteq> [] \<and> parseFloat s = NaN"
  then show "per_million (parseFloat (or_zero v)) = NaN"
    by (simp add: or_zero_def per_million_NaN)
next
  assume a: "v = Some s \<and> s \<noteq> [] \<and> parseFloat s = Num p \<and> \<bar>p * 1000000\<bar> < 10 ^ 21"
  then have "per_million (parseFloat (or_zero v)) = per_million (Num p)"
    by (simp add: or_zero_def)
  then show "\<exists>n::int. per_million (parseFloat (or_zero v)) = Num (real_of_int n / 10000) \<and>
         \<bar>real_of_int n / 10000 - p * 1000000\<bar> \<le> 1 / 20000"
    using per_million_rounds[of p] a by simp
qed

theorem normalized_prices_witness:
  "per_million (parseFloat (or_zero None)) = Num 0 \<and>
   parseFloat ''abc'' = NaN \<and>
   per_million (parseFloat (or_zero (Some ''abc''))) = NaN \<and>
   parseFloat ''0.00000123456'' = Num (123456 / 100000000000) \<and>
   per_million (parseFloat (or_zero (Some ''0.00000123456''))) = Num (12346 / 10000)"
proof -
  have z: "per_million (parseFloat (or_zero None)) = Num 0"
    using normalized_prices[of "[]" None "[]" 0, THEN conjunct2, THEN conjunct1] by simp
  have n: "parseFloat ''abc'' = NaN" by (simp add: parse_defs)
  have n': "per_million (parseFloat (or_zero (Some ''abc''))) = NaN"
    using normalized_prices[of "[]" "Some ''abc''" "''abc''" 0,
        THEN conjunct2, THEN conjunct2, THEN conjunct1] n by simp
  have p: "parseFloat ''0.00000123456'' = Num (123456 / 100000000000)"
    by (simp add: parse_defs)
  have r: "per_million (parseFloat (or_zero (Some ''0.00000123456''))) = Num (12346 / 10000)"
    by (simp add: or_zero_def p per_million_def toFixed_def)
  show ?thesis using z n n' p r by simp
qed

text \<open>
  The sentence of the specification fails on an unparseable price: the record with the prompt
  price \<open>"abc"\<close> is emitted with the input price NaN.
\<close>

theorem normalized_prices_counterexample:
  "map (\<lambda>x. (id_m x, input_m x, output_m x)) (normalize_batch [unpriced]) = [(''a/z'', NaN, Num 2)]"
  by (simp add: normalize_batch_def unpriced_def id_m_build_model input_m_build_model output_m_build_model
      raw_priced_def price_field_def or_zero_def per_million_def toFixed_def parse_defs)

section \<open>Sorting with a consistent comparator\<close>

text \<open>
  A comparator is consistent on a set when "not after" is a total preorder there:
  \<open>anti\<close> and \<open>trans\<close> below.
\<close>

lemma set_insert_sorted: "set (insert_sorted c x ys) = insert x (set ys)"
  using mset_insert_sorted[of c x ys] by (metis set_mset_mset set_mset_add_mset_insert)

lemma sorted_insert_sorted:
  assumes anti: "\<And>a b. a \<in> A \<Longrightarrow> b \<in> A \<Longrightarrow> jlt (Num 0) (c a b) \<Longrightarrow> \<not> jlt (Num 0) (c b a)"
    and trans: "\<And>a b d. a \<in> A \<Longrightarrow> b \<in> A \<Longrightarrow> d \<in> A \<Longrightarrow>
        \<not> jlt (Num 0) (c a b) \<Longrightarrow> \<not> jlt (Num 0) (c b d) \<Longrightarrow> \<not> jlt (Num 0) (c a d)"
    and "x \<in> A" and "set ys \<subseteq> A"
    and "sorted_wrt (\<lambda>a b. \<not> jlt (Num 0) (c a b)) ys"
  shows "sorted_wrt (\<lambda>a b. \<not> jlt (Num 0) (c a b)) (insert_sorted c x ys)"
  using assms(4,5)
proof (induction ys)
  case Nil
  show ?case by simp
next
  case (Cons y ys)
  show ?case
  proof (cases "jlt (Num 0) (c x y)")
    case True
    have "\<not> jlt (Num 0) (c y x)" using anti[of x y] True assms(3) Cons.prems(1) by simp
    moreover have "sorted_wrt (\<lambda>a b. \<not> jlt (Num 0) (c a b)) (insert_sorted c x ys)"
      using Cons by simp
    ultimately show ?thesis using True Cons.prems by (auto simp: set_insert_sorted)
  next
    case False
    have "\<forall>z \<in> set ys. \<not> jlt (Num 0) (c x z)"
    proof
      fix z assume z: "z \<in> set ys"
      then have "\<not> jlt (Num 0) (c y z)" using Cons.prems(2) by simp
      then show "\<not> jlt (Num 0) (c x z)"
        using trans[of x y z] False assms(3) Cons.prems(1) z by auto
    qed
    then show ?thesis using False Cons.prems(2) by simp
  qed
qed

lemma sorted_js_sort:
  assumes anti: "\<And>a b. a \<in> A \<Longrightarrow> b \<in> A \<Longrightarrow> jlt (Num 0) (c a b) \<Longrightarrow> \<not> jlt (Num 0) (c b a)"
    and trans: "\<And>a b d. a \<in> A \<Longrightarrow> b \<in> A \<Longrightarrow> d \<in> A \<Longrightarrow>
        \<not> jlt (Num 0) (c a b) \<Longrightarrow> \<not> jlt (Num 0) (c b d) \<Longrightarrow> \<not> jlt (Num 0) (c a d)"
    and "set xs \<subseteq> A"
  shows "sorted_wrt (\<lambda>a b. \<not> jlt (Num 0) (c a b)) (js_sort c xs)"
  using assms(3)
proof (induction xs)
  case Nil
  show ?case by (simp add: js_sort_def)
next
  case (Cons x xs)
  have s: "sorted_wrt (\<lambda>a b. \<not> jlt (Num 0) (c a b)) (js_sort c xs)" using Cons by simp
  have "sorted_wrt (\<lambda>a b. \<not> jlt (Num 0) (c a b)) (insert_sorted c x (js_sort c xs))"
    by (rule sorted_insert_sorted[of A c, OF anti trans _ _ s])
      (use Cons.prems in \<open>auto simp: set_js_sort\<close>)
  then show ?case by (simp add: js_sort_def)
qed

lemma filter_insert_sorted:
  assumes "\<And>y. y \<in> set ys \<Longrightarrow> P x \<Longrightarrow> jlt (Num 0) (c x y) \<Longrightarrow> \<not> P y"
  shows "filter P (insert_sorted c x ys) = filter P (x # ys)"
  using assms by (induction ys) auto

lemma filter_js_sort:
  assumes "\<And>x y. x \<in> set xs \<Longrightarrow> y \<in> set xs \<Longrightarrow> P x \<Longrightarrow> jlt (Num 0) (c x y) \<Longrightarrow> \<not> P y"
  shows "filter P (js_sort c xs) = filter P xs"
  using assms
proof (induction xs)
  case Nil
  show ?case by (simp add: js_sort_def)
next
  case (Cons x xs)
  have ih: "filter P (js_sort c xs) = filter P xs"
  proof (rule Cons.IH)
    fix a b assume "a \<in> set xs" "b \<in> set xs" "P a" "jlt (Num 0) (c a b)"
    then show "\<not> P b" using Cons.prems[of a b] by simp
  qed
  have "filter P (insert_sorted c x (js_sort c xs)) = filter P (x # js_sort c xs)"
    by (rule filter_insert_sorted) (use Cons.prems in \<open>auto simp: set_js_sort\<close>)
  then show ?case using ih by (simp add: js_sort_def)
qed

lemma js_sort_head_least:
  assumes anti: "\<And>a b. a \<in> A \<Longrightarrow> b \<in> A \<Longrightarrow> jlt (Num 0) (c a b) \<Longrightarrow> \<not> jlt (Num 0) (c b a)"
    and trans: "\<And>a b d. a \<in> A \<Longrightarrow> b \<in> A \<Longrightarrow> d \<in> A \<Longrightarrow>
        \<not> jlt (Num 0) (c a b) \<Longrightarrow> \<not> jlt (Num 0) (c b d) \<Longrightarrow> \<not> jlt (Num 0) (c a d)"
    and "set xs \<subseteq> A" and "js_sort c xs = b # rest" and "m \<in> set xs"
  shows "b \<in> set xs \<and> \<not> jlt (Num 0) (c b m)"
proof -
  have s: "sorted_wrt (\<lambda>a b. \<not> jlt (Num 0) (c a b)) (b # rest)"
    using sorted_js_sort[of A c xs, OF anti trans assms(3)] assms(4) by simp
  have b: "b \<in> set xs" using set_js_sort[of c xs] assms(4) by auto
  have "m = b \<or> m \<in> set rest" using set_js_sort[of c xs] assms(4,5) by auto
  then show ?thesis
  proof
    assume "m = b"
    then show ?thesis using anti[of b b] b assms(3) by auto
  next
    assume "m \<in> set rest"
    then show ?thesis using s b by simp
  qed
qed

section \<open>The order of the live list\<close>

lemma jsub_pos: "a \<noteq> NaN \<Longrightarrow> b \<noteq> NaN \<Longrightarrow> jlt (Num 0) (jsub a b) = jlt b a"
  by (cases a; cases b) (auto simp: jsub_def)

lemma jlt_asym: "jlt a b \<Longrightarrow> \<not> jlt b a"
  by (cases a; cases b) auto

lemma jlt_irrefl: "\<not> jlt a a"
  by (cases a) auto

lemma jle_trans: "jle a b \<Longrightarrow> jle b c \<Longrightarrow> jle a c"
  by (cases a; cases b; cases c) (auto simp: jle_def)

lemma jle_iff: "a \<noteq> NaN \<Longrightarrow> b \<noteq> NaN \<Longrightarrow> jle a b = (\<not> jlt b a)"
  by (simp add: jle_def)

lemma collation_facts:
  fixes lc :: "string \<Rightarrow> string \<Rightarrow> int"
  assumes L1: "\<forall>a b. (lc a b < 0) = (0 < lc b a)"
    and L2: "\<forall>a b c. lc a b \<le> 0 \<and> lc b c \<le> 0 \<longrightarrow> lc a c \<le> 0"
  shows "lc a a = 0"
    and "(lc a b = 0) = (lc b a = 0)"
    and "lc a b < 0 \<Longrightarrow> lc b c \<le> 0 \<Longrightarrow> lc a c < 0"
    and "lc a b \<le> 0 \<Longrightarrow> lc b c < 0 \<Longrightarrow> lc a c < 0"
    and "lc a b = 0 \<Longrightarrow> lc b c = 0 \<Longrightarrow> lc a c = 0"
proof -
  have anti: "(lc x y < 0) = (0 < lc y x)" for x y using L1 by simp
  have tr: "lc x y \<le> 0 \<Longrightarrow> lc y z \<le> 0 \<Longrightarrow> lc x z \<le> 0" for x y z using L2 by blast
  show "lc a a = 0" using anti[of a a] by linarith
  have s: "(lc x y = 0) = (lc y x = 0)" for x y
    using anti[of x y] anti[of y x] by linarith
  show "(lc a b = 0) = (lc b a = 0)" by (rule s)
  show "lc a c < 0" if ab: "lc a b < 0" and bc: "lc b c \<le> 0"
  proof -
    have ac: "lc a c \<le> 0" using tr[of a b c] ab bc by simp
    have "lc a c \<noteq> 0"
    proof
      assume "lc a c = 0"
      then have "lc c a \<le> 0" using s[of a c] by simp
      then have "lc b a \<le> 0" using tr[of b c a] bc by simp
      moreover have "0 < lc b a" using anti[of a b] ab by simp
      ultimately show False by simp
    qed
    with ac show ?thesis by simp
  qed
  show "lc a c < 0" if ab: "lc a b \<le> 0" and bc: "lc b c < 0"
  proof -
    have ac: "lc a c \<le> 0" using tr[of a b c] ab bc by simp
    have "lc a c \<noteq> 0"
    proof
      assume "lc a c = 0"
      then have "lc c a \<le> 0" using s[of a c] by simp
      then have "lc c b \<le> 0" using tr[of c a b] ab by simp
      moreover have "0 < lc c b" using anti[of b c] bc by simp
      ultimately show False by simp
    qed
    with ac show ?thesis by simp
  qed
  show "lc a c = 0" if ab: "lc a b = 0" and bc: "lc b c = 0"
  proof -
    have "lc a c \<le> 0" using tr[of a b c] ab bc by simp
    moreover have "lc c a \<le> 0" using tr[of c b a] s[of a b] s[of b c] ab bc by simp
    ultimately show ?thesis using anti[of a c] by linarith
  qed
qed

lemma not_after_iff:
  assumes L1: "\<forall>a b. (lc a b < 0) = (0 < lc b a)"
    and "input_m a \<noteq> NaN" and "input_m b \<noteq> NaN"
  shows "(\<not> jlt (Num 0) (by_provider_input lc a b)) = in_order lc a b"
proof (cases "lc (provider a) (provider b) = 0")
  case True
  then show ?thesis using assms(2,3) by (simp add: by_provider_input_def in_order_def jsub_pos jle_iff)
next
  case False
  then show ?thesis by (auto simp: by_provider_input_def in_order_def)
qed

lemma in_order_total:
  assumes L1: "\<forall>a b. (lc a b < 0) = (0 < lc b a)"
    and "input_m a \<noteq> NaN" and "input_m b \<noteq> NaN"
  shows "in_order lc a b \<or> in_order lc b a"
proof -
  have s: "(lc (provider a) (provider b) = 0) = (lc (provider b) (provider a) = 0)"
    using L1[rule_format, of "provider a" "provider b"] L1[rule_format, of "provider b" "provider a"]
    by linarith
  have t: "jle (input_m a) (input_m b) \<or> jle (input_m b) (input_m a)"
    using assms(2,3) jlt_asym by (auto simp: jle_def)
  have "lc (provider a) (provider b) < 0 \<or> lc (provider a) (provider b) = 0 \<or>
      lc (provider b) (provider a) < 0"
    using L1[rule_format, of "provider b" "provider a"] by linarith
  then show ?thesis using s t by (auto simp: in_order_def)
qed

lemma in_order_trans:
  assumes L1: "\<forall>a b. (lc a b < 0) = (0 < lc b a)"
    and L2: "\<forall>a b c. lc a b \<le> 0 \<and> lc b c \<le> 0 \<longrightarrow> lc a c \<le> 0"
    and ab: "in_order lc a b" and bd: "in_order lc b d"
  shows "in_order lc a d"
proof -
  note cf = collation_facts[OF L1 L2]
  show ?thesis
  proof (cases "lc (provider a) (provider b) < 0")
    case True
    have "lc (provider b) (provider d) \<le> 0" using bd by (auto simp: in_order_def)
    then have "lc (provider a) (provider d) < 0" using True cf(3) by blast
    then show ?thesis by (simp add: in_order_def)
  next
    case False
    then have ab0: "lc (provider a) (provider b) = 0" and abj: "jle (input_m a) (input_m b)"
      using ab by (auto simp: in_order_def)
    show ?thesis
    proof (cases "lc (provider b) (provider d) < 0")
      case True
      then have "lc (provider a) (provider d) < 0" using ab0 cf(4)[of "provider a" "provider b" "provider d"] by simp
      then show ?thesis by (simp add: in_order_def)
    next
      case False
      then have bd0: "lc (provider b) (provider d) = 0" and bdj: "jle (input_m b) (input_m d)"
        using bd by (auto simp: in_order_def)
      have "lc (provider a) (provider d) = 0" using ab0 bd0 cf(5) by blast
      moreover have "jle (input_m a) (input_m d)" using abj bdj by (rule jle_trans)
      ultimately show ?thesis by (simp add: in_order_def)
    qed
  qed
qed

lemma jsub_same: "a \<noteq> NaN \<Longrightarrow> \<not> jlt (Num 0) (jsub a a)"
  by (simp add: jsub_pos jlt_irrefl)

lemma provider_build_model: "provider (build_model m) = extractProvider (raw_id m)"
  by (simp add: build_model_def Let_def)

lemma batch_ab_normalized: "normalize_batch batch_ab = map build_model batch_ab"
  by (simp add: batch_ab_def normalize_batch_def raw_priced_def price_field_def or_zero_def
      parse_defs)

lemma batch_ab_inputs: "map input_m (map build_model batch_ab) = [Num 2, Num 3, Num 2]"
  by (simp add: batch_ab_def input_m_build_model raw_priced_def price_field_def or_zero_def
      per_million_def toFixed_def parse_defs)

lemma batch_ab_providers: "map provider (map build_model batch_ab) = [''bb'', ''a'', ''bb'']"
  by (simp add: batch_ab_def provider_build_model raw_priced_def extractProvider_def
      first_segment_def PROVIDER_MAP_def)

lemma batch_ab_live:
  "live_models collate0 batch_ab =
     [build_model (batch_ab ! 1), build_model (batch_ab ! 0), build_model (batch_ab ! 2)]"
proof -
  obtain x y z where xyz: "map build_model batch_ab = [x, y, z]"
    "x = build_model (batch_ab ! 0)" "y = build_model (batch_ab ! 1)" "z = build_model (batch_ab ! 2)"
    by (simp add: batch_ab_def)
  have i: "input_m x = Num 2" "input_m y = Num 3" "input_m z = Num 2"
    using batch_ab_inputs xyz(1) by simp_all
  have p: "provider x = ''bb''" "provider y = ''a''" "provider z = ''bb''"
    using batch_ab_providers xyz(1) by simp_all
  have "js_sort (by_provider_input collate0) [x, y, z] = [y, x, z]"
    by (simp add: js_sort_def by_provider_input_def collate0_def i p jsub_def)
  then show ?thesis using xyz by (simp add: live_models_def batch_ab_normalized)
qed

text \<open>
  C6, in the form that holds. Let the collation be a consistent comparator (its sign is antisymmetric, and "not
  after" is transitive), and let no emitted input price be NaN. Then the list
  \<open>fetchLivePricing\<close> returns is the normalized list sorted by provider name ascending,
  then by input price ascending; it has the same models; and the models that tie, by
  equal provider and equal input price or more generally by providers the collation
  does not tell apart and equal input price, keep the order they have in the normalized
  list, which is the order of the aggregator's records.
\<close>

theorem live_models_sorted:
  assumes L1: "\<forall>a b. (lc a b < 0) = (0 < lc b a)"
    and L2: "\<forall>a b c. lc a b \<le> 0 \<and> lc b c \<le> 0 \<longrightarrow> lc a c \<le> 0"
    and nn: "\<forall>x \<in> set (normalize_batch data). input_m x \<noteq> NaN"
  shows "sorted_wrt (in_order lc) (live_models lc data) \<and>
         mset (live_models lc data) = mset (normalize_batch data) \<and>
         (\<forall>k. filter (\<lambda>y. provider y = provider k \<and> input_m y = input_m k) (live_models lc data) =
              filter (\<lambda>y. provider y = provider k \<and> input_m y = input_m k) (normalize_batch data)) \<and>
         (\<forall>k. filter (\<lambda>y. lc (provider k) (provider y) = 0 \<and> input_m y = input_m k) (live_models lc data) =
              filter (\<lambda>y. lc (provider k) (provider y) = 0 \<and> input_m y = input_m k) (normalize_batch data)) \<and>
         (\<forall>e. localeCompare e = lc \<and> reply e = Body data \<longrightarrow>
              fetchLivePricing e = Inr (live_models lc data))"
proof (intro conjI allI impI)
  note cf = collation_facts[OF L1 L2]
  define A :: "model set" where "A = {x. input_m x \<noteq> NaN}"
  have sub: "set (normalize_batch data) \<subseteq> A" using nn by (auto simp: A_def)
  have io: "(\<not> jlt (Num 0) (by_provider_input lc a b)) = in_order lc a b" if "a \<in> A" "b \<in> A" for a b
    using that not_after_iff[OF L1] by (simp add: A_def)
  have anti: "\<not> jlt (Num 0) (by_provider_input lc b a)"
    if "a \<in> A" "b \<in> A" "jlt (Num 0) (by_provider_input lc a b)" for a b
  proof -
    have "\<not> in_order lc a b" using io[of a b] that by simp
    then have "in_order lc b a" using in_order_total[OF L1, of a b] that by (auto simp: A_def)
    then show ?thesis using io[of b a] that by simp
  qed
  have trans: "\<not> jlt (Num 0) (by_provider_input lc a d)"
    if "a \<in> A" "b \<in> A" "d \<in> A" "\<not> jlt (Num 0) (by_provider_input lc a b)"
      "\<not> jlt (Num 0) (by_provider_input lc b d)" for a b d
  proof -
    have "in_order lc a b" "in_order lc b d" using io that by auto
    then have "in_order lc a d" by (rule in_order_trans[OF L1 L2])
    then show ?thesis using io that by simp
  qed
  have s1: "sorted_wrt (\<lambda>a b. \<not> jlt (Num 0) (by_provider_input lc a b))
      (js_sort (by_provider_input lc) (normalize_batch data))"
    by (rule sorted_js_sort[of A, OF anti trans sub])
  have s2: "set (js_sort (by_provider_input lc) (normalize_batch data)) \<subseteq> A"
    using sub by (simp add: set_js_sort)
  show "sorted_wrt (in_order lc) (live_models lc data)"
    unfolding live_models_def
  proof (rule sorted_wrt_mono_rel[OF _ s1])
    fix x y
    assume "x \<in> set (js_sort (by_provider_input lc) (normalize_batch data))"
      "y \<in> set (js_sort (by_provider_input lc) (normalize_batch data))"
      "\<not> jlt (Num 0) (by_provider_input lc x y)"
    then show "in_order lc x y" using io[of x y] s2 by auto
  qed
  show "mset (live_models lc data) = mset (normalize_batch data)"
    by (simp add: live_models_def mset_js_sort)
  show "filter (\<lambda>y. provider y = provider k \<and> input_m y = input_m k) (live_models lc data) =
        filter (\<lambda>y. provider y = provider k \<and> input_m y = input_m k) (normalize_batch data)" for k
    unfolding live_models_def
  proof (rule filter_js_sort)
    fix x y
    assume x: "x \<in> set (normalize_batch data)" and y: "y \<in> set (normalize_batch data)"
      and px: "provider x = provider k \<and> input_m x = input_m k"
      and g: "jlt (Num 0) (by_provider_input lc x y)"
    show "\<not> (provider y = provider k \<and> input_m y = input_m k)"
    proof
      assume py: "provider y = provider k \<and> input_m y = input_m k"
      have "lc (provider x) (provider y) = 0" using px py cf(1) by simp
      moreover have "input_m x = input_m y" using px py by simp
      moreover have "input_m x \<noteq> NaN" using nn x by simp
      ultimately show False using g by (simp add: by_provider_input_def jsub_same)
    qed
  qed
  show "filter (\<lambda>y. lc (provider k) (provider y) = 0 \<and> input_m y = input_m k) (live_models lc data) =
        filter (\<lambda>y. lc (provider k) (provider y) = 0 \<and> input_m y = input_m k) (normalize_batch data)" for k
    unfolding live_models_def
  proof (rule filter_js_sort)
    fix x y
    assume x: "x \<in> set (normalize_batch data)" and y: "y \<in> set (normalize_batch data)"
      and px: "lc (provider k) (provider x) = 0 \<and> input_m x = input_m k"
      and g: "jlt (Num 0) (by_provider_input lc x y)"
    show "\<not> (lc (provider k) (provider y) = 0 \<and> input_m y = input_m k)"
    proof
      assume py: "lc (provider k) (provider y) = 0 \<and> input_m y = input_m k"
      have "lc (provider x) (provider k) = 0" using px cf(2) by blast
      then have "lc (provider x) (provider y) = 0" using py cf(5) by blast
      moreover have "input_m x = input_m y" using px py by simp
      moreover have "input_m x \<noteq> NaN" using nn x by simp
      ultimately show False using g by (simp add: by_provider_input_def jsub_same)
    qed
  qed
  show "fetchLivePricing e = Inr (live_models lc data)"
    if "localeCompare e = lc \<and> reply e = Body data" for e
    using that by (simp add: fetchLivePricing_def)
qed

theorem live_models_sorted_witness:
  "map id_m (normalize_batch batch_ab) = [''bb/x'', ''a/y'', ''bb/z''] \<and>
   map id_m (live_models collate0 batch_ab) = [''a/y'', ''bb/x'', ''bb/z''] \<and>
   sorted_wrt (in_order collate0) (live_models collate0 batch_ab)"
proof -
  have L1: "\<forall>a b. (collate0 a b < 0) = (0 < collate0 b a)"
    by (simp add: collate0_def)
  have L2: "\<forall>a b c. collate0 a b \<le> 0 \<and> collate0 b c \<le> 0 \<longrightarrow> collate0 a c \<le> 0"
    by (simp add: collate0_def)
  have "\<forall>v \<in> set (map input_m (normalize_batch batch_ab)). v \<noteq> NaN"
    unfolding batch_ab_normalized batch_ab_inputs by simp
  then have nn: "\<forall>x \<in> set (normalize_batch batch_ab). input_m x \<noteq> NaN" by simp
  have s: "sorted_wrt (in_order collate0) (live_models collate0 batch_ab)"
    using live_models_sorted[OF L1 L2 nn] by (rule conjunct1)
  have a: "map id_m (normalize_batch batch_ab) = [''bb/x'', ''a/y'', ''bb/z'']"
    by (simp add: batch_ab_normalized) (simp add: batch_ab_def id_m_build_model raw_priced_def)
  have b: "map id_m (live_models collate0 batch_ab) = [''a/y'', ''bb/x'', ''bb/z'']"
    by (simp add: batch_ab_live id_m_build_model) (simp add: batch_ab_def raw_priced_def)
  show ?thesis using s a b by simp
qed

lemma batch_nan_normalized: "normalize_batch batch_nan = map build_model batch_nan"
  by (simp add: batch_nan_def normalize_batch_def raw_priced_def price_field_def or_zero_def
      parse_defs)

lemma batch_nan_inputs: "map input_m (map build_model batch_nan) = [Num 3, NaN, Num 1]"
  by (simp add: batch_nan_def input_m_build_model raw_priced_def price_field_def or_zero_def
      per_million_def toFixed_def parse_defs)

lemma batch_nan_outputs: "map output_m (map build_model batch_nan) = [Num 1, Num 1, Num 1]"
  by (simp add: batch_nan_def output_m_build_model raw_priced_def price_field_def or_zero_def
      per_million_def toFixed_def parse_defs)

lemma batch_nan_providers: "map provider (map build_model batch_nan) = [''a'', ''a'', ''a'']"
  by (simp add: batch_nan_def provider_build_model raw_priced_def extractProvider_def
      first_segment_def PROVIDER_MAP_def)

lemma batch_nan_live: "live_models collate0 batch_nan = map build_model batch_nan"
proof -
  obtain x y z where xyz: "map build_model batch_nan = [x, y, z]"
    by (simp add: batch_nan_def)
  have i: "input_m x = Num 3" "input_m y = NaN" "input_m z = Num 1"
    using batch_nan_inputs xyz by simp_all
  have p: "provider x = ''a''" "provider y = ''a''" "provider z = ''a''"
    using batch_nan_providers xyz by simp_all
  have "js_sort (by_provider_input collate0) [x, y, z] = [x, y, z]"
    by (simp add: js_sort_def by_provider_input_def collate0_def i p jsub_def)
  then show ?thesis using xyz by (simp add: live_models_def batch_nan_normalized)
qed

text \<open>
  The sentence of the specification fails on the batch \<open>batch_nan\<close>, whose records have
  one provider and the prompt prices \<open>0.000003\<close>, \<open>abc\<close> and \<open>0.000001\<close>: the list comes
  back with the input prices 3, NaN, 1, which is not ascending.
\<close>

theorem live_models_counterexample:
  "map input_m (live_models collate0 batch_nan) = [Num 3, NaN, Num 1] \<and>
   \<not> sorted_wrt (in_order collate0) (live_models collate0 batch_nan)"
proof -
  obtain x y z where xyz: "map build_model batch_nan = [x, y, z]"
    by (simp add: batch_nan_def)
  have i: "input_m x = Num 3" "input_m y = NaN" "input_m z = Num 1"
    using batch_nan_inputs xyz by simp_all
  have p: "provider x = ''a''" "provider y = ''a''"
    using batch_nan_providers xyz by simp_all
  have "\<not> in_order collate0 x y" by (simp add: in_order_def collate0_def jle_def i p)
  then have "\<not> sorted_wrt (in_order collate0) [x, y, z]" by simp
  then show ?thesis using xyz i by (simp add: batch_nan_live)
qed

section \<open>Best model for each use case\<close>

lemma price_sum_after:
  assumes "jadd (input_m a) (output_m a) \<noteq> NaN" and "jadd (input_m b) (output_m b) \<noteq> NaN"
  shows "jlt (Num 0) (by_price_sum a b) =
         jlt (jadd (input_m b) (output_m b)) (jadd (input_m a) (output_m a))"
  using assms by (simp add: by_price_sum_def jsub_pos)

lemma context_after: "jlt (Num 0) (by_context_desc a b) = (context_m a < context_m b)"
  by (simp add: by_context_desc_def)

lemma maxOutput_after:
  "jlt (Num 0) (by_maxOutput_desc a b) = (or_else (maxOutput a) 0 < or_else (maxOutput b) 0)"
  by (simp add: by_maxOutput_desc_def)

lemma best_of_empty:
  "filter (qualifies cat) ms = [] \<Longrightarrow> best_of ms cat = Inr (label cat, None)"
  by (simp add: best_of_def)

lemma best_of_nonempty:
  assumes anti: "\<And>a b. a \<in> A \<Longrightarrow> b \<in> A \<Longrightarrow> jlt (Num 0) (c a b) \<Longrightarrow> \<not> jlt (Num 0) (c b a)"
    and trans: "\<And>a b d. a \<in> A \<Longrightarrow> b \<in> A \<Longrightarrow> d \<in> A \<Longrightarrow>
        \<not> jlt (Num 0) (c a b) \<Longrightarrow> \<not> jlt (Num 0) (c b d) \<Longrightarrow> \<not> jlt (Num 0) (c a d)"
    and fs: "set (filter (qualifies cat) ms) \<subseteq> A"
    and c: "c = (case ranking cat of Some r \<Rightarrow> r | None \<Rightarrow> by_price_sum)"
    and ne: "filter (qualifies cat) ms \<noteq> []"
  shows "\<exists>best. best_of ms cat = Inr (label cat, Some best) \<and> best \<in> set ms \<and> qualifies cat best \<and>
           (\<forall>m \<in> set ms. qualifies cat m \<longrightarrow> \<not> jlt (Num 0) (c best m))"
proof -
  have "js_sort c (filter (qualifies cat) ms) \<noteq> []" using ne by (simp add: js_sort_Nil_iff)
  then obtain best rest where br: "js_sort c (filter (qualifies cat) ms) = best # rest"
    by (cases "js_sort c (filter (qualifies cat) ms)") auto
  have least: "best \<in> set (filter (qualifies cat) ms) \<and> \<not> jlt (Num 0) (c best m)"
    if "m \<in> set (filter (qualifies cat) ms)" for m
    by (rule js_sort_head_least[of A c, OF anti trans fs br that])
  obtain m0 where "m0 \<in> set (filter (qualifies cat) ms)" using ne by (cases "filter (qualifies cat) ms") auto
  then have b: "best \<in> set ms" "qualifies cat best" using least[of m0] by auto
  have "best_of ms cat = Inr (label cat, Some best)"
    using ne br c by (simp add: best_of_def Let_def)
  then show ?thesis using b least by auto
qed

lemma categories_rankings:
  "map ranking categories =
     [None, None, None, None, None, None, None, None, Some by_context_desc, Some by_maxOutput_desc]"
  by (simp add: categories_def)

lemma category_cases:
  "cat \<in> set categories \<Longrightarrow>
   ranking cat = None \<or>
   (ranking cat = Some by_context_desc \<and> qualifies cat = (\<lambda>m. True)) \<or>
   (ranking cat = Some by_maxOutput_desc \<and> qualifies cat = (\<lambda>m. True))"
  unfolding categories_def by (elim set_ConsD[elim_format]) auto

lemma best_loop_lines:
  "best_loop ms cats = Inr lines \<Longrightarrow> map Inr lines = map (best_of ms) cats"
proof (induction cats arbitrary: lines)
  case Nil
  then show ?case by simp
next
  case (Cons cat cats)
  obtain l where l: "best_of ms cat = Inr l" using best_of_returns by blast
  obtain ls where ls: "best_loop ms cats = Inr ls" using best_loop_returns by blast
  have "lines = l # ls" using Cons.prems l ls by (simp add: and_then_def)
  then show ?case using Cons.IH[OF ls] l by simp
qed

lemma best_by_cost:
  assumes nn: "\<forall>m \<in> set ms. qualifies cat m \<longrightarrow> jadd (input_m m) (output_m m) \<noteq> NaN"
    and r: "ranking cat = None"
    and b: "best_of ms cat = Inr (label cat, Some best)"
    and m: "m \<in> set ms" "qualifies cat m"
  shows "jle (jadd (input_m best) (output_m best)) (jadd (input_m m) (output_m m))"
proof -
  define A :: "model set" where "A = {m. jadd (input_m m) (output_m m) \<noteq> NaN}"
  have fs: "set (filter (qualifies cat) ms) \<subseteq> A" using nn by (auto simp: A_def)
  have anti: "\<not> jlt (Num 0) (by_price_sum y x)"
    if "x \<in> A" "y \<in> A" "jlt (Num 0) (by_price_sum x y)" for x y
    using that jlt_asym by (auto simp: A_def price_sum_after)
  have trans: "\<not> jlt (Num 0) (by_price_sum x z)"
    if "x \<in> A" "y \<in> A" "z \<in> A" "\<not> jlt (Num 0) (by_price_sum x y)"
      "\<not> jlt (Num 0) (by_price_sum y z)" for x y z
  proof -
    have "jle (jadd (input_m x) (output_m x)) (jadd (input_m y) (output_m y))"
      "jle (jadd (input_m y) (output_m y)) (jadd (input_m z) (output_m z))"
      using that by (simp_all add: A_def price_sum_after jle_iff)
    then have "jle (jadd (input_m x) (output_m x)) (jadd (input_m z) (output_m z))"
      by (rule jle_trans)
    then show ?thesis using that by (simp add: A_def price_sum_after jle_iff)
  qed
  have c: "by_price_sum = (case ranking cat of Some r \<Rightarrow> r | None \<Rightarrow> by_price_sum)"
    using r by simp
  have ne: "filter (qualifies cat) ms \<noteq> []" using m by (auto simp: filter_empty_conv)
  have "\<exists>best. best_of ms cat = Inr (label cat, Some best) \<and> best \<in> set ms \<and> qualifies cat best \<and>
           (\<forall>m \<in> set ms. qualifies cat m \<longrightarrow> \<not> jlt (Num 0) (by_price_sum best m))"
    by (rule best_of_nonempty[where A = A and c = by_price_sum and ms = ms and cat = cat, OF anti trans fs c ne])
  then obtain best' where b': "best_of ms cat = Inr (label cat, Some best')" "best' \<in> set ms"
      "qualifies cat best'"
      "\<forall>m \<in> set ms. qualifies cat m \<longrightarrow> \<not> jlt (Num 0) (by_price_sum best' m)"
    by blast
  have e: "best' = best" using b b'(1) by simp
  have n: "\<not> jlt (Num 0) (by_price_sum best m)" using b'(4) m e by simp
  have s1: "jadd (input_m best) (output_m best) \<noteq> NaN" using nn b'(2,3) e by blast
  have s2: "jadd (input_m m) (output_m m) \<noteq> NaN" using nn m by blast
  show ?thesis using n by (simp add: price_sum_after[OF s1 s2] jle_iff[OF s1 s2])
qed

lemma best_by_rank:
  assumes after: "\<And>a b. jlt (Num 0) (c a b) = (key a < key b)"
    and r: "ranking cat = Some c" and q: "qualifies cat = (\<lambda>m. True)"
    and b: "best_of ms cat = Inr (label cat, Some best)"
    and m: "m \<in> set ms"
  shows "(key m :: nat) \<le> key best"
proof -
  have anti: "\<not> jlt (Num 0) (c y x)" if "x \<in> UNIV" "y \<in> UNIV" "jlt (Num 0) (c x y)" for x y
    using that by (simp add: after)
  have trans: "\<not> jlt (Num 0) (c x z)"
    if "x \<in> UNIV" "y \<in> UNIV" "z \<in> UNIV" "\<not> jlt (Num 0) (c x y)" "\<not> jlt (Num 0) (c y z)" for x y z
    using that by (simp add: after)
  have c: "c = (case ranking cat of Some r \<Rightarrow> r | None \<Rightarrow> by_price_sum)" using r by simp
  have ne: "filter (qualifies cat) ms \<noteq> []" using m q by (auto simp: filter_empty_conv)
  have sub: "set (filter (qualifies cat) ms) \<subseteq> UNIV" by simp
  have "\<exists>best. best_of ms cat = Inr (label cat, Some best) \<and> best \<in> set ms \<and> qualifies cat best \<and>
           (\<forall>m \<in> set ms. qualifies cat m \<longrightarrow> \<not> jlt (Num 0) (c best m))"
    by (rule best_of_nonempty[where A = UNIV and c = c and ms = ms and cat = cat, OF anti trans sub c ne])
  then obtain best' where b': "best_of ms cat = Inr (label cat, Some best')"
      "\<forall>m \<in> set ms. qualifies cat m \<longrightarrow> \<not> jlt (Num 0) (c best' m)"
    by blast
  have "best' = best" using b b'(1) by simp
  then have "\<not> jlt (Num 0) (c best m)" using b'(2) m q by simp
  then show ?thesis by (simp add: after)
qed

lemma best_of_some:
  assumes ne: "filter (qualifies cat) ms \<noteq> []"
  shows "\<exists>best. best_of ms cat = Inr (label cat, Some best) \<and> best \<in> set ms \<and> qualifies cat best"
proof -
  have "js_sort (case ranking cat of Some c \<Rightarrow> c | None \<Rightarrow> by_price_sum) (filter (qualifies cat) ms) \<noteq> []"
    using ne by (simp add: js_sort_Nil_iff)
  then obtain best rest where br:
    "js_sort (case ranking cat of Some c \<Rightarrow> c | None \<Rightarrow> by_price_sum) (filter (qualifies cat) ms) = best # rest"
    by (cases "js_sort (case ranking cat of Some c \<Rightarrow> c | None \<Rightarrow> by_price_sum) (filter (qualifies cat) ms)") auto
  have "best \<in> set (filter (qualifies cat) ms)"
    using set_js_sort[of "case ranking cat of Some c \<Rightarrow> c | None \<Rightarrow> by_price_sum" "filter (qualifies cat) ms"] br
    by auto
  moreover have "best_of ms cat = Inr (label cat, Some best)"
    using ne br by (simp add: best_of_def Let_def)
  ultimately show ?thesis by auto
qed

text \<open>
  C7, in the form that holds. \<open>printBestFor\<close> takes the model list only, no token counts,
  and never fails: it gives one line for each of the ten categories, in order. A
  category that no model qualifies for gives the line without a model; otherwise the
  line names a qualifying model \<open>best\<close>. For the category sorted by context it has the
  greatest context, and for the category sorted by maximal output the greatest
  \<open>maxOutput || 0\<close>, a missing or zero \<open>maxOutput\<close> counting as \<open>0\<close>; in these two
  categories every model qualifies. For one of the eight categories without a \<open>sort\<close>,
  when no qualifying model has the sum \<open>input + output\<close> NaN, \<open>best\<close> has the least
  \<open>input + output\<close> among the qualifying models.
\<close>

theorem best_for_selects:
  "(\<exists>lines. printBestFor ms = Inr lines \<and> map Inr lines = map (best_of ms) categories) \<and>
   (\<forall>cat \<in> set categories.
      (filter (qualifies cat) ms = [] \<longrightarrow> best_of ms cat = Inr (label cat, None)) \<and>
      (filter (qualifies cat) ms \<noteq> [] \<longrightarrow>
         (\<exists>best. best_of ms cat = Inr (label cat, Some best) \<and> best \<in> set ms \<and>
            qualifies cat best \<and>
            (ranking cat = None \<and>
             (\<forall>m \<in> set ms. qualifies cat m \<longrightarrow> jadd (input_m m) (output_m m) \<noteq> NaN) \<longrightarrow>
               (\<forall>m \<in> set ms. qualifies cat m \<longrightarrow>
                  jle (jadd (input_m best) (output_m best)) (jadd (input_m m) (output_m m)))) \<and>
            (ranking cat = Some by_context_desc \<longrightarrow>
               (\<forall>m \<in> set ms. context_m m \<le> context_m best)) \<and>
            (ranking cat = Some by_maxOutput_desc \<longrightarrow>
               (\<forall>m \<in> set ms. or_else (maxOutput m) 0 \<le> or_else (maxOutput best) 0))))) \<and>
   map ranking categories =
     [None, None, None, None, None, None, None, None,
      Some by_context_desc, Some by_maxOutput_desc]"
proof (intro conjI ballI impI)
  obtain lines where l: "printBestFor ms = Inr lines" using printBestFor_returns by blast
  then have "map Inr lines = map (best_of ms) categories"
    by (simp add: printBestFor_def best_loop_lines)
  with l show "\<exists>lines. printBestFor ms = Inr lines \<and> map Inr lines = map (best_of ms) categories"
    by blast
next
  fix cat :: category assume "filter (qualifies cat) ms = []"
  then show "best_of ms cat = Inr (label cat, None)" by (rule best_of_empty)
next
  fix cat :: category assume cat: "cat \<in> set categories" and ne: "filter (qualifies cat) ms \<noteq> []"
  obtain best where b: "best_of ms cat = Inr (label cat, Some best)" "best \<in> set ms"
      "qualifies cat best"
    using best_of_some[OF ne] by blast
  have q: "qualifies cat = (\<lambda>m. True)" if "ranking cat \<noteq> None"
    using category_cases[OF cat] that by (elim disjE) simp_all
  have 1: "ranking cat = None \<and>
      (\<forall>m \<in> set ms. qualifies cat m \<longrightarrow> jadd (input_m m) (output_m m) \<noteq> NaN) \<longrightarrow>
      (\<forall>m \<in> set ms. qualifies cat m \<longrightarrow>
         jle (jadd (input_m best) (output_m best)) (jadd (input_m m) (output_m m)))"
  proof (intro impI ballI)
    fix m
    assume h: "ranking cat = None \<and>
        (\<forall>m \<in> set ms. qualifies cat m \<longrightarrow> jadd (input_m m) (output_m m) \<noteq> NaN)"
      and m: "m \<in> set ms" "qualifies cat m"
    have nn: "\<forall>m \<in> set ms. qualifies cat m \<longrightarrow> jadd (input_m m) (output_m m) \<noteq> NaN"
      and r: "ranking cat = None"
      using h by simp_all
    show "jle (jadd (input_m best) (output_m best)) (jadd (input_m m) (output_m m))"
      by (rule best_by_cost[OF nn r b(1) m])
  qed
  have 2: "ranking cat = Some by_context_desc \<longrightarrow> (\<forall>m \<in> set ms. context_m m \<le> context_m best)"
  proof (intro impI ballI)
    fix m assume r: "ranking cat = Some by_context_desc" and m: "m \<in> set ms"
    have qq: "qualifies cat = (\<lambda>m. True)" using q r by simp
    show "context_m m \<le> context_m best"
      by (rule best_by_rank[of by_context_desc context_m, OF context_after r qq b(1) m])
  qed
  have 3: "ranking cat = Some by_maxOutput_desc \<longrightarrow>
      (\<forall>m \<in> set ms. or_else (maxOutput m) 0 \<le> or_else (maxOutput best) 0)"
  proof (intro impI ballI)
    fix m assume r: "ranking cat = Some by_maxOutput_desc" and m: "m \<in> set ms"
    have qq: "qualifies cat = (\<lambda>m. True)" using q r by simp
    show "or_else (maxOutput m) 0 \<le> or_else (maxOutput best) 0"
      by (rule best_by_rank[of by_maxOutput_desc "\<lambda>m. or_else (maxOutput m) 0",
            OF maxOutput_after r qq b(1) m])
  qed
  show "\<exists>best. best_of ms cat = Inr (label cat, Some best) \<and> best \<in> set ms \<and>
            qualifies cat best \<and>
            (ranking cat = None \<and>
             (\<forall>m \<in> set ms. qualifies cat m \<longrightarrow> jadd (input_m m) (output_m m) \<noteq> NaN) \<longrightarrow>
               (\<forall>m \<in> set ms. qualifies cat m \<longrightarrow>
                  jle (jadd (input_m best) (output_m best)) (jadd (input_m m) (output_m m)))) \<and>
            (ranking cat = Some by_context_desc \<longrightarrow>
               (\<forall>m \<in> set ms. context_m m \<le> context_m best)) \<and>
            (ranking cat = Some by_maxOutput_desc \<longrightarrow>
               (\<forall>m \<in> set ms. or_else (maxOutput m) 0 \<le> or_else (maxOutput best) 0))"
    by (intro exI[of _ best] conjI b 1 2 3)
next
  show "map ranking categories =
           [None, None, None, None, None, None, None, None,
            Some by_context_desc, Some by_maxOutput_desc]"
    by (rule categories_rankings)
qed

theorem best_for_selects_witness:
  "best_of [gpt41, nano] (categories ! 0) = Inr (''Cheapest overall'', Some nano) \<and>
   jle (jadd (input_m nano) (output_m nano)) (jadd (input_m gpt41) (output_m gpt41)) \<and>
   best_of [gpt41, nano] (categories ! 7) = Inr (''Cheapest with audio'', None) \<and>
   (\<exists>lines. printBestFor [gpt41, nano] = Inr lines \<and> length lines = 10)"
proof -
  have g: "input_m gpt41 = Num 2 \<and> output_m gpt41 = Num 8"
    by (simp add: gpt41_def fallback_entry_def)
  have n: "input_m nano = Num (1 / 10) \<and> output_m nano = Num (4 / 10)"
    by (simp add: nano_def fallback_entry_def)
  note T = best_for_selects[of "[gpt41, nano]"]
  have c0: "categories ! 0 \<in> set categories" "label (categories ! 0) = ''Cheapest overall''"
    "qualifies (categories ! 0) = (\<lambda>m. True)" "ranking (categories ! 0) = None"
    by (simp_all add: categories_def)
  have c7: "categories ! 7 \<in> set categories" "label (categories ! 7) = ''Cheapest with audio''"
    "qualifies (categories ! 7) = audio"
    by (simp_all add: categories_def)
  have e: "filter (qualifies (categories ! 7)) [gpt41, nano] = []"
    by (simp add: c7(3) gpt41_def nano_def fallback_entry_def)
  have t7: "filter (qualifies (categories ! 7)) [gpt41, nano] = [] \<longrightarrow>
      best_of [gpt41, nano] (categories ! 7) = Inr (label (categories ! 7), None)"
    using T[THEN conjunct2, THEN conjunct1] c7(1) by blast
  have a7: "best_of [gpt41, nano] (categories ! 7) = Inr (''Cheapest with audio'', None)"
    using t7 e c7(2) by simp
  have a0: "best_of [gpt41, nano] (categories ! 0) = Inr (''Cheapest overall'', Some nano)"
    by (simp add: categories_def best_of_def js_sort_def by_price_sum_def jsub_def
        gpt41_def nano_def fallback_entry_def)
  have ne: "filter (qualifies (categories ! 0)) [gpt41, nano] \<noteq> []"
    by (simp add: c0(3))
  have nn: "\<forall>m \<in> set [gpt41, nano]. qualifies (categories ! 0) m \<longrightarrow>
      jadd (input_m m) (output_m m) \<noteq> NaN"
    using g n by simp
  obtain best where b: "best_of [gpt41, nano] (categories ! 0) = Inr (label (categories ! 0), Some best)"
    "ranking (categories ! 0) = None \<and>
       (\<forall>m \<in> set [gpt41, nano]. qualifies (categories ! 0) m \<longrightarrow>
          jadd (input_m m) (output_m m) \<noteq> NaN) \<longrightarrow>
     (\<forall>m \<in> set [gpt41, nano]. qualifies (categories ! 0) m \<longrightarrow>
        jle (jadd (input_m best) (output_m best)) (jadd (input_m m) (output_m m)))"
    using T[THEN conjunct2, THEN conjunct1] c0(1) ne by blast
  have "best = nano" using b(1) a0 by simp
  then have l: "jle (jadd (input_m nano) (output_m nano)) (jadd (input_m gpt41) (output_m gpt41))"
    using b(2) c0(3,4) nn by simp
  obtain lines where ln: "printBestFor [gpt41, nano] = Inr lines"
      "map Inr lines = map (best_of [gpt41, nano]) categories"
    using T[THEN conjunct1] by blast
  have "length (map Inr lines :: (exn + string \<times> model option) list) = length categories"
    using ln(2) by simp
  then have "length lines = 10" by (simp add: categories_def)
  with ln(1) a0 a7 l show ?thesis by simp
qed

text \<open>
  The sentence of the specification fails on the list the program makes of \<open>batch_nan\<close>.
  Every model qualifies as "Cheapest overall"; the sums \<open>input + output\<close> are 4, NaN and
  2; the line names the model with the sum 4.
\<close>

theorem best_for_counterexample:
  "map (\<lambda>m. jadd (input_m m) (output_m m)) (live_models collate0 batch_nan) = [Num 4, NaN, Num 2] \<and>
   best_of (live_models collate0 batch_nan) (categories ! 0) =
     Inr (''Cheapest overall'', Some (build_model (batch_nan ! 0)))"
proof -
  obtain x y z where xyz: "map build_model batch_nan = [x, y, z]" "x = build_model (batch_nan ! 0)"
    by (simp add: batch_nan_def)
  have i: "input_m x = Num 3" "input_m y = NaN" "input_m z = Num 1"
    using batch_nan_inputs xyz(1) by simp_all
  have o: "output_m x = Num 1" "output_m y = Num 1" "output_m z = Num 1"
    using batch_nan_outputs xyz(1) by simp_all
  have c0: "label (categories ! 0) = ''Cheapest overall''"
    "qualifies (categories ! 0) = (\<lambda>m. True)" "ranking (categories ! 0) = None"
    by (simp_all add: categories_def)
  have "best_of [x, y, z] (categories ! 0) = Inr (''Cheapest overall'', Some x)"
    by (simp add: best_of_def c0 js_sort_def by_price_sum_def jsub_def i o)
  then show ?thesis using xyz i o by (simp add: batch_nan_live)
qed

end
